theory Spec2Isabelle
  imports Main "HOL-Library.AList" "HOL-Library.Multiset"
begin

section \<open>Go values: errors, maps and their iteration order\<close>

text \<open>
  A Go \<^verbatim>\<open>error\<close> is either the sentinel \<^verbatim>\<open>contract.ErrStoreNotFound\<close> or an error
  carrying a message (\<^verbatim>\<open>errors.New(resp.Status)\<close>, a transport error, ...). A nil
  error is \<open>None\<close> of \<open>error option\<close>.
\<close>

datatype error = ErrStoreNotFound | Err string

text \<open>
  A Go map is an association list with pairwise distinct keys: lookup is \<open>map_of\<close>,
  the assignment \<^verbatim>\<open>m[k] = v\<close> is \<open>AList.update k v m\<close>. Go leaves the order of
  \<^verbatim>\<open>for k, v := range m\<close> unspecified, so the order is a parameter \<open>rng\<close> of the
  model: it reorders the list of keys, and \<open>goRange\<close> visits the entries in that order.
  \<open>order_ok\<close> says that \<open>rng\<close> only reorders; the theorems hold for every such order.
\<close>

type_synonym ('k, 'v) gomap = "('k \<times> 'v) list"

definition goRange :: "(string list \<Rightarrow> string list) \<Rightarrow> (string, 'v) gomap \<Rightarrow> (string \<times> 'v) list" where
  "goRange rng m = List.map_filter (\<lambda>k. map_option (Pair k) (map_of m k)) (rng (map fst m))"

definition order_ok :: "(string list \<Rightarrow> string list) \<Rightarrow> bool" where
  "order_ok rng = (\<forall>ks. distinct ks \<longrightarrow> distinct (rng ks) \<and> set (rng ks) = set ks)"

section \<open>The catalog entry\<close>

text \<open>
  Modelled from the spec: \<^verbatim>\<open>catalog.File\<close> is declared in the package
  \<^verbatim>\<open>components/catalog\<close>, whose declaration of the struct is not among the sources.
  The fields are those of section 3 of the specification (and those the code reads:
  \<^verbatim>\<open>file.Store\<close>, \<^verbatim>\<open>file.Type\<close>, \<^verbatim>\<open>file.Path\<close>, \<^verbatim>\<open>file.IsEnv\<close>, \<^verbatim>\<open>file.Data\<close>).
\<close>

record File =
  Path :: string
  Store :: string
  Type :: string
  IsEnv :: bool
  Data :: "(string, string) gomap"

section \<open>harbor\_store.go: constants and types\<close>

definition authURL :: string where "authURL = ''http://auth.services.dmtio.net''"
definition shipURL :: string where "shipURL = ''http://shipit.services.dmtio.net''"

definition tokenToken :: string where "tokenToken = ''HARBOR_TOKEN''"
definition userToken :: string where "userToken = ''HARBOR_USER''"
definition passToken :: string where "passToken = ''HARBOR_PASS''"

definition shipmentToken :: string where "shipmentToken = ''HARBOR_SHIPMENT''"
definition containerToken :: string where "containerToken = ''HARBOR_CONTAINER''"
definition envToken :: string where "envToken = ''HARBOR_ENV''"

definition modifiedToken :: string where "modifiedToken = ''CSTORE_MODIFIED''"
definition modifiedLayout :: string where
  "modifiedLayout = ''2006-01-02 15:04:05.999999999 -0700 MST''"

definition envTypeBasic :: string where "envTypeBasic = ''basic''"
definition envTypeDiscover :: string where "envTypeDiscover = ''discover''"
definition envTypeHidden :: string where "envTypeHidden = ''hidden''"

text \<open>
  Modelled from the spec: \<^verbatim>\<open>addEnvVarPrefix\<close> is called by Push and Pull but defined in
  a file of the package that is not among the sources. The specification's scenario
  gives the prefixed form of the key \<^verbatim>\<open>FOO\<close> as \<^verbatim>\<open>ENV_FOO\<close>.
\<close>

definition addEnvVarPrefix :: "string \<Rightarrow> string" where
  "addEnvVarPrefix key = ''ENV_'' @ key"

record HarborAuth =
  User :: string
  Token :: string

record HarborShipment =
  ship_Name :: string
  ship_Container :: string
  ship_Env :: string

text \<open>The \<^verbatim>\<open>Vault\<close> field of \<^verbatim>\<open>HarborStore\<close> is read by none of its methods.\<close>

record HarborStore =
  Auth :: HarborAuth
  Shipment :: HarborShipment

record pair =
  p_Name :: string
  p_Value :: string
  p_Type :: string

record harborKey =
  hk_value :: string
  hk_vType :: string

record HEnvVar =
  ev_Name :: string
  ev_Value :: string
  ev_Type :: string

record HContainers =
  c_Name :: string
  c_EnvVars :: "HEnvVar list"

record HShipment =
  Containers :: "HContainers list"

section \<open>The HTTP transport\<close>

text \<open>
  The backend is not part of the program. A request is what the code puts into
  \<^verbatim>\<open>http.NewRequest\<close> and the three headers; the body is the pair that
  \<^verbatim>\<open>json.Marshal\<close> encodes (a struct of three strings, which always encodes) or nothing.
  \<^verbatim>\<open>client.Do\<close> is a parameter \<open>T\<close> of the model, a function of the request and of the
  state \<open>'w\<close> of the world: it answers with a transport error or with a response, and
  moves the world. Of a response the code reads the status code, the status text and,
  in \<^verbatim>\<open>getHarborKeys\<close>, the body through \<^verbatim>\<open>json.NewDecoder(resp.Body).Decode\<close>: the body
  is modelled by the result of that decoding.

  The code drops the error of \<^verbatim>\<open>http.NewRequest\<close>; the model covers the runs in which
  the request is built (the URL parses), the others end in a nil dereference.

  Every exchange is appended to a log, next to the lines written to standard output,
  so that theorems can speak about the calls a function made.
\<close>

datatype body = NoBody | JSONPair pair

record request =
  Method :: string
  URL :: string
  x_token :: string
  x_username :: string
  Content_Type :: string
  ReqBody :: body

record response =
  StatusCode :: nat
  Status :: string
  RespBody :: "error + HShipment"

type_synonym 'w transport = "request \<Rightarrow> 'w \<Rightarrow> (error + response) \<times> 'w"

datatype event = Http request "error + response" | Stdout string

type_synonym 'w world = "'w \<times> event list"

definition Do :: "'w transport \<Rightarrow> request \<Rightarrow> 'w world \<Rightarrow> (error + response) \<times> 'w world" where
  "Do T req s = (case T req (fst s) of (res, w') \<Rightarrow> (res, (w', snd s @ [Http req res])))"

definition Printf :: "string \<Rightarrow> 'w world \<Rightarrow> 'w world" where
  "Printf line s = (fst s, snd s @ [Stdout line])"

section \<open>harbor\_store.go: the remote calls\<close>

definition buildURL :: "HarborShipment \<Rightarrow> string" where
  "buildURL shipment =
     shipURL @ ''/v1/shipment/'' @ ship_Name shipment @ ''/environment/'' @ ship_Env shipment
       @ ''/container/'' @ ship_Container shipment"

definition createReq :: "pair \<Rightarrow> string \<Rightarrow> HarborAuth \<Rightarrow> request" where
  "createReq p url auth =
     \<lparr>Method = ''POST'', URL = url @ ''/envVars'', x_token = Token auth,
      x_username = User auth, Content_Type = ''application/json'', ReqBody = JSONPair p\<rparr>"

definition createKey :: "'w transport \<Rightarrow> pair \<Rightarrow> string \<Rightarrow> HarborAuth \<Rightarrow> 'w world \<Rightarrow> error option \<times> 'w world" where
  "createKey T p url auth s =
     (case Do T (createReq p url auth) s of
        (Inl err, s') \<Rightarrow> (Some err, s')
      | (Inr resp, s') \<Rightarrow>
          if StatusCode resp \<noteq> 201 then (Some (Err (Status resp)), s') else (None, s'))"

definition updateReq :: "pair \<Rightarrow> string \<Rightarrow> HarborAuth \<Rightarrow> request" where
  "updateReq p url auth =
     \<lparr>Method = ''PUT'', URL = url @ ''/envVar/'' @ p_Name p, x_token = Token auth,
      x_username = User auth, Content_Type = ''application/json'', ReqBody = JSONPair p\<rparr>"

definition updateKey :: "'w transport \<Rightarrow> pair \<Rightarrow> string \<Rightarrow> HarborAuth \<Rightarrow> 'w world \<Rightarrow> error option \<times> 'w world" where
  "updateKey T p url auth s =
     (case Do T (updateReq p url auth) s of
        (Inl err, s') \<Rightarrow> (Some err, s')
      | (Inr resp, s') \<Rightarrow>
          if StatusCode resp \<noteq> 200 then (Some (Err (Status resp)), s') else (None, s'))"

definition deleteReq :: "string \<Rightarrow> string \<Rightarrow> HarborAuth \<Rightarrow> request" where
  "deleteReq key url auth =
     \<lparr>Method = ''DELETE'', URL = url @ ''/envVar/'' @ key, x_token = Token auth,
      x_username = User auth, Content_Type = ''application/json'', ReqBody = NoBody\<rparr>"

definition deleteKey :: "'w transport \<Rightarrow> string \<Rightarrow> string \<Rightarrow> HarborAuth \<Rightarrow> 'w world \<Rightarrow> error option \<times> 'w world" where
  "deleteKey T key url auth s =
     (case Do T (deleteReq key url auth) s of
        (Inl err, s') \<Rightarrow> (Some err, s')
      | (Inr resp, s') \<Rightarrow>
          if StatusCode resp \<noteq> 200 then (Some (Err (Status resp)), s') else (None, s'))"

definition getReq :: "HarborShipment \<Rightarrow> HarborAuth \<Rightarrow> request" where
  "getReq shipment auth =
     \<lparr>Method = ''GET'',
      URL = shipURL @ ''/v1/shipment/'' @ ship_Name shipment @ ''/environment/'' @ ship_Env shipment,
      x_token = Token auth, x_username = User auth, Content_Type = ''application/json'',
      ReqBody = NoBody\<rparr>"

fun envVarsLoop :: "HEnvVar list \<Rightarrow> (string, harborKey) gomap \<Rightarrow> (string, harborKey) gomap" where
  "envVarsLoop [] envVars = envVars"
| "envVarsLoop (envVar # rest) envVars =
     envVarsLoop rest
       (AList.update (ev_Name envVar) \<lparr>hk_value = ev_Value envVar, hk_vType = ev_Type envVar\<rparr> envVars)"

fun containersLoop :: "string \<Rightarrow> HContainers list \<Rightarrow> (string, harborKey) gomap \<Rightarrow> (string, harborKey) gomap" where
  "containersLoop container [] envVars = envVars"
| "containersLoop container (c # cs) envVars =
     (if c_Name c = container then containersLoop container cs (envVarsLoop (c_EnvVars c) envVars)
      else containersLoop container cs envVars)"

definition getHarborKeys :: "'w transport \<Rightarrow> HarborShipment \<Rightarrow> HarborAuth \<Rightarrow> 'w world \<Rightarrow> (error + (string, harborKey) gomap) \<times> 'w world" where
  "getHarborKeys T shipment auth s =
     (case Do T (getReq shipment auth) s of
        (Inl err, s') \<Rightarrow> (Inl err, s')
      | (Inr resp, s') \<Rightarrow>
          if StatusCode resp \<noteq> 200 then (Inl (Err (Status resp)), s')
          else (case RespBody resp of
                  Inl err \<Rightarrow> (Inl err, s')
                | Inr sh \<Rightarrow> (Inr (containersLoop (ship_Container shipment) (Containers sh) []), s')))"

section \<open>harbor\_store.go: Pull\<close>

text \<open>
  Modelled from the spec: \<^verbatim>\<open>Attributes\<close> is declared in a file of the package that is
  not among the sources; Pull sets its field \<^verbatim>\<open>LastModified\<close>, a \<^verbatim>\<open>time.Time\<close>. Times
  are values of a type \<open>'t\<close>; \<^verbatim>\<open>time.Now().UTC()\<close> is the parameter \<open>now\<close> and
  \<^verbatim>\<open>time.Parse\<close> the parameter \<open>time_Parse\<close> (layout, then value; \<open>None\<close> is an error).
\<close>

record 't Attributes =
  LastModified :: 't

text \<open>The loop over the remote keys, writing to the buffer.\<close>

fun pullLoop :: "(string, string) gomap \<Rightarrow> (string \<times> harborKey) list \<Rightarrow> string \<Rightarrow> string" where
  "pullLoop fdata [] buffer = buffer"
| "pullLoop fdata ((key, contents) # rest) buffer =
     (if key = modifiedToken then pullLoop fdata rest buffer
      else (case map_of fdata (addEnvVarPrefix key) of
              Some _ \<Rightarrow> pullLoop fdata rest (buffer @ key @ ''='' @ hk_value contents @ [CHR 0x0A])
            | None \<Rightarrow> pullLoop fdata rest buffer))"

definition Pull :: "'w transport \<Rightarrow> (string list \<Rightarrow> string list) \<Rightarrow> (string \<Rightarrow> string \<Rightarrow> 't option) \<Rightarrow> 't
    \<Rightarrow> HarborStore \<Rightarrow> string \<Rightarrow> File \<Rightarrow> 'w world \<Rightarrow> (error + string \<times> 't Attributes) \<times> 'w world" where
  "Pull T rng time_Parse now s contextKey file w =
     (case getHarborKeys T (Shipment s) (Auth s) w of
        (Inl err, w') \<Rightarrow> (Inl err, w')
      | (Inr keys, w') \<Rightarrow>
          (let buffer = pullLoop (Data file) (goRange rng keys) [];
               attr = \<lparr>LastModified = now\<rparr>;
               attr = (case map_of keys modifiedToken of
                         Some modified \<Rightarrow>
                           (case time_Parse modifiedLayout (hk_value modified) of
                              Some m \<Rightarrow> attr\<lparr>LastModified := m\<rparr>
                            | None \<Rightarrow> attr)
                       | None \<Rightarrow> attr)
           in (Inr (buffer, attr), w')))"

section \<open>harbor\_store.go: Push\<close>

text \<open>
  The classification of a local key (the lines of the loop body before the pair is
  built). \<^verbatim>\<open>envVarType\<close>, the generic marker of a plain environment variable, is a
  constant of the package declared in a file that is not among the sources: it is the
  parameter \<open>envVarType\<close>.
\<close>

definition keyTypeFor :: "string \<Rightarrow> (string, string) gomap \<Rightarrow> string \<Rightarrow> string" where
  "keyTypeFor envVarType fdata prefixedKey =
     (let keyType = envTypeHidden
      in (case map_of fdata prefixedKey of
            Some storedKeyType \<Rightarrow> if storedKeyType \<noteq> envVarType then storedKeyType else keyType
          | None \<Rightarrow> keyType))"

text \<open>The first loop of Push, over the local keys: create, on failure update.\<close>

fun pushLoop :: "'w transport \<Rightarrow> string \<Rightarrow> (string, string) gomap \<Rightarrow> string \<Rightarrow> HarborAuth
    \<Rightarrow> (string \<times> string) list \<Rightarrow> (string, string) gomap \<Rightarrow> 'w world
    \<Rightarrow> error option \<times> (string, string) gomap \<times> 'w world" where
  "pushLoop T envVarType fdata url auth [] data w = (None, data, w)"
| "pushLoop T envVarType fdata url auth ((key, val) # rest) data w =
     (let prefixedKey = addEnvVarPrefix key;
          keyType = keyTypeFor envVarType fdata prefixedKey;
          p = \<lparr>p_Name = key, p_Value = val, p_Type = keyType\<rparr>
      in (case createKey T p url auth w of
            (None, w1) \<Rightarrow>
              pushLoop T envVarType fdata url auth rest (AList.update prefixedKey keyType data) w1
          | (Some _, w1) \<Rightarrow>
              (case updateKey T p url auth w1 of
                 (Some err, w2) \<Rightarrow> (Some err, data, w2)
               | (None, w2) \<Rightarrow>
                   pushLoop T envVarType fdata url auth rest (AList.update prefixedKey keyType data) w2)))"

text \<open>
  The second loop of Push, over the keys of the remote store. \<open>deletingLine\<close> is the
  line \<^verbatim>\<open>fmt.Printf("\ndeleting %s", key)\<close> writes.
\<close>

definition deletingLine :: "string \<Rightarrow> string" where
  "deletingLine key = CHR 0x0A # ''deleting '' @ key"

fun pushDeleteLoop :: "'w transport \<Rightarrow> (string, string) gomap \<Rightarrow> (string, string) gomap \<Rightarrow> string
    \<Rightarrow> HarborAuth \<Rightarrow> string list \<Rightarrow> 'w world \<Rightarrow> error option \<times> 'w world" where
  "pushDeleteLoop T fdata localKeys url auth [] w = (None, w)"
| "pushDeleteLoop T fdata localKeys url auth (key # rest) w =
     (let prefixedKey = addEnvVarPrefix key
      in (case map_of fdata prefixedKey of
            Some _ \<Rightarrow>
              (case map_of localKeys key of
                 None \<Rightarrow>
                   (case deleteKey T key url auth (Printf (deletingLine key) w) of
                      (Some err, w1) \<Rightarrow> (Some err, w1)
                    | (None, w1) \<Rightarrow> pushDeleteLoop T fdata localKeys url auth rest w1)
               | Some _ \<Rightarrow> pushDeleteLoop T fdata localKeys url auth rest w)
          | None \<Rightarrow> pushDeleteLoop T fdata localKeys url auth rest w))"

text \<open>
  Push. \<^verbatim>\<open>gotenv.Parse\<close> (a library) is the parameter \<open>gotenv_Parse\<close>, from the bytes of
  the file to the map of its keys; \<^verbatim>\<open>time.Now().UTC().String()\<close> is the parameter
  \<open>nowString\<close>. The result is the triple the Go function returns (the metadata map, the
  versioning flag, the error), and the world.
\<close>

definition Push :: "'w transport \<Rightarrow> (string list \<Rightarrow> string list) \<Rightarrow> string
    \<Rightarrow> (string \<Rightarrow> (string, string) gomap) \<Rightarrow> string
    \<Rightarrow> HarborStore \<Rightarrow> string \<Rightarrow> File \<Rightarrow> string \<Rightarrow> 'w world
    \<Rightarrow> ((string, string) gomap \<times> bool \<times> error option) \<times> 'w world" where
  "Push T rng envVarType gotenv_Parse nowString s contextKey file fileData w =
     (let data = [(shipmentToken, ship_Name (Shipment s)),
                  (containerToken, ship_Container (Shipment s)),
                  (envToken, ship_Env (Shipment s))];
          localKeys = AList.update modifiedToken nowString (gotenv_Parse fileData);
          url = buildURL (Shipment s)
      in (case pushLoop T envVarType (Data file) url (Auth s) (goRange rng localKeys) data w of
            (Some err, data, w1) \<Rightarrow> ((data, False, Some err), w1)
          | (None, data, w1) \<Rightarrow>
              (case getHarborKeys T (Shipment s) (Auth s) w1 of
                 (Inl err, w2) \<Rightarrow> ((data, False, Some err), w2)
               | (Inr harborKeys, w2) \<Rightarrow>
                   (case pushDeleteLoop T (Data file) localKeys url (Auth s)
                           (map fst (goRange rng harborKeys)) w2 of
                      (Some err, w3) \<Rightarrow> ((data, False, Some err), w3)
                    | (None, w3) \<Rightarrow> ((data, False, None), w3)))))"

section \<open>harbor\_store.go: Purge\<close>

definition isEnvVarType :: "string \<Rightarrow> bool" where
  "isEnvVarType envVarType =
     (if envVarType = envTypeBasic then True
      else if envVarType = envTypeDiscover then True
      else if envVarType = envTypeHidden then True
      else False)"

fun purgeLoop :: "'w transport \<Rightarrow> string \<Rightarrow> HarborAuth \<Rightarrow> (string \<times> string) list \<Rightarrow> 'w world
    \<Rightarrow> error option \<times> 'w world" where
  "purgeLoop T url auth [] w = (None, w)"
| "purgeLoop T url auth ((key, val) # rest) w =
     (if isEnvVarType val then
        (case deleteKey T key url auth w of
           (Some err, w1) \<Rightarrow> (Some err, w1)
         | (None, w1) \<Rightarrow> purgeLoop T url auth rest w1)
      else purgeLoop T url auth rest w)"

definition Purge :: "'w transport \<Rightarrow> (string list \<Rightarrow> string list) \<Rightarrow> HarborStore \<Rightarrow> string \<Rightarrow> File
    \<Rightarrow> 'w world \<Rightarrow> error option \<times> 'w world" where
  "Purge T rng s contextKey file w =
     (let url = buildURL (Shipment s)
      in purgeLoop T url (Auth s) (goRange rng (Data file)) w)"

section \<open>harbor\_store.go: Pre\<close>

text \<open>
  The collaborators of Pre are outside the program and are parameters of the model:
  \<^item> \<^verbatim>\<open>harborauth.NewAuthClient\<close>, of which the code reads the error;
  \<^item> \<^verbatim>\<open>client.IsAuthenticated(user, token)\<close>, of which the code reads the boolean and
    drops the error;
  \<^item> \<^verbatim>\<open>client.Login(user, pass)\<close>, which returns a token, a success flag and an error;
  \<^item> the vault \<^verbatim>\<open>cv\<close>, a state of type \<open>'v\<close>: \<^verbatim>\<open>cv.Get(contextID, key, "", "", false)\<close>
    and \<^verbatim>\<open>cv.Set(contextID, key, value)\<close>;
  \<^item> \<^verbatim>\<open>prompt.GetValFromUser(name, "", "", isSecret)\<close>, the answer of the user.
  Pre has a pointer receiver: the model returns the store it leaves behind.
\<close>

record 'v Collaborators =
  NewAuthClient :: "string \<Rightarrow> error option"
  IsAuthenticated :: "string \<Rightarrow> string \<Rightarrow> bool"
  Login :: "string \<Rightarrow> string \<Rightarrow> string \<times> bool \<times> error option"
  vault_Get :: "'v \<Rightarrow> string \<Rightarrow> string \<Rightarrow> error + string"
  vault_Set :: "'v \<Rightarrow> string \<Rightarrow> string \<Rightarrow> string \<Rightarrow> error option \<times> 'v"
  GetValFromUser :: "string \<Rightarrow> bool \<Rightarrow> string"

text \<open>The last part of Pre: the three coordinates, from \<^verbatim>\<open>file.Data\<close> or from the user.\<close>

definition preCoordinates :: "'v Collaborators \<Rightarrow> File \<Rightarrow> HarborStore \<Rightarrow> HarborStore" where
  "preCoordinates C file s =
     (let s = (case map_of (Data file) shipmentToken of
                 Some shipment \<Rightarrow> s\<lparr>Shipment := (Shipment s)\<lparr>ship_Name := shipment\<rparr>\<rparr>
               | None \<Rightarrow> s\<lparr>Shipment := (Shipment s)\<lparr>ship_Name := GetValFromUser C shipmentToken False\<rparr>\<rparr>);
          s = (case map_of (Data file) containerToken of
                 Some container \<Rightarrow> s\<lparr>Shipment := (Shipment s)\<lparr>ship_Container := container\<rparr>\<rparr>
               | None \<Rightarrow> s\<lparr>Shipment := (Shipment s)\<lparr>ship_Container := GetValFromUser C containerToken False\<rparr>\<rparr>);
          s = (case map_of (Data file) envToken of
                 Some env \<Rightarrow> s\<lparr>Shipment := (Shipment s)\<lparr>ship_Env := env\<rparr>\<rparr>
               | None \<Rightarrow> s\<lparr>Shipment := (Shipment s)\<lparr>ship_Env := GetValFromUser C envToken False\<rparr>\<rparr>)
      in s)"

definition Pre :: "'v Collaborators \<Rightarrow> HarborStore \<Rightarrow> string \<Rightarrow> File \<Rightarrow> 'v
    \<Rightarrow> error option \<times> HarborStore \<times> 'v" where
  "Pre C s contextID file cv =
     (case NewAuthClient C authURL of
        Some err \<Rightarrow> (Some err, s, cv)
      | None \<Rightarrow>
          (let s = s\<lparr>Shipment := \<lparr>ship_Name = [], ship_Container = [], ship_Env = []\<rparr>\<rparr>;
               s = s\<lparr>Auth := \<lparr>User = [], Token = []\<rparr>\<rparr>;
               isAuth = False;
               s = (case vault_Get C cv contextID userToken of
                      Inr v \<Rightarrow> s\<lparr>Auth := (Auth s)\<lparr>User := v\<rparr>\<rparr>
                    | Inl _ \<Rightarrow> s);
               s = (case vault_Get C cv contextID tokenToken of
                      Inr v \<Rightarrow> s\<lparr>Auth := (Auth s)\<lparr>Token := v\<rparr>\<rparr>
                    | Inl _ \<Rightarrow> s);
               isAuth = (if length (Token (Auth s)) > 0 \<and> length (User (Auth s)) > 0
                         then IsAuthenticated C (User (Auth s)) (Token (Auth s)) else isAuth)
           in if \<not> isAuth then
                (let s = s\<lparr>Auth := (Auth s)\<lparr>User := GetValFromUser C userToken False\<rparr>\<rparr>;
                     pass = GetValFromUser C passToken True
                 in (case Login C (User (Auth s)) pass of
                       (token, success, err) \<Rightarrow>
                         if err \<noteq> None \<or> \<not> success then (err, s, cv)
                         else (case vault_Set C cv contextID userToken (User (Auth s)) of
                                 (Some err, cv) \<Rightarrow> (Some err, s, cv)
                               | (None, cv) \<Rightarrow>
                                   (case vault_Set C cv contextID tokenToken token of
                                      (Some err, cv) \<Rightarrow> (Some err, s, cv)
                                    | (None, cv) \<Rightarrow>
                                        (None, preCoordinates C file (s\<lparr>Auth := (Auth s)\<lparr>Token := token\<rparr>\<rparr>), cv)))))
              else (None, preCoordinates C file s, cv)))"

section \<open>store.go: Select\<close>

text \<open>
  Modelled from the spec: the interface \<^verbatim>\<open>contract.IStore\<close> is declared in the package
  \<^verbatim>\<open>components/contract\<close>, which is not among the sources. Select calls three of its
  methods: \<^verbatim>\<open>Name()\<close>, \<^verbatim>\<open>SupportsFileType(file.Type)\<close> and
  \<^verbatim>\<open>Pre(clog, file, v, uo, io)\<close>. The arguments \<^verbatim>\<open>clog, v, uo, io\<close> are passed on
  untouched and are one value of type \<open>'c\<close>; \<^verbatim>\<open>file\<close> is a pointer, so Pre returns the
  file it leaves behind; what else Pre does is a move of the world \<open>'w\<close>.
\<close>

record ('c, 'w) IStore =
  st_Name :: string
  SupportsFileType :: "string \<Rightarrow> bool"
  st_Pre :: "'c \<Rightarrow> File \<Rightarrow> 'w \<Rightarrow> error option \<times> File \<times> 'w"

text \<open>
  Modelled from the spec: \<^verbatim>\<open>prompt.Options\<close> (package \<^verbatim>\<open>components/prompt\<close>, not
  among the sources), with the two fields Select sets.
\<close>

record Options =
  Description :: string
  DefaultValue :: string

text \<open>The calls Select makes to its collaborators, in order.\<close>

datatype call = Prompted string Options | PreCalled string

text \<open>The loop that joins the names of the stores that support the type of the file.\<close>

fun supportedLoop :: "string \<Rightarrow> ('c, 'w) IStore list \<Rightarrow> string \<Rightarrow> string" where
  "supportedLoop ftype [] supportedStores = supportedStores"
| "supportedLoop ftype (s # rest) supportedStores =
     (if SupportsFileType s ftype then
        (if length supportedStores = 0 then supportedLoop ftype rest (st_Name s)
         else supportedLoop ftype rest (supportedStores @ '','' @ st_Name s))
      else supportedLoop ftype rest supportedStores)"

text \<open>
  Select. The registry \<^verbatim>\<open>stores\<close> (a package variable) is the parameter \<open>stores\<close>;
  \<^verbatim>\<open>prompt.GetValFromUser\<close> is the parameter \<open>ask\<close>, which answers and moves the
  world; \<^verbatim>\<open>cfg.DefaultStore\<close>, a constant of a package that is not among the sources, is
  the parameter \<open>DefaultStore\<close>. The result is the pair the Go function returns, the
  file behind the pointer, and the world with the log of the calls.
\<close>

definition Select :: "(string, ('c, 'w) IStore) gomap \<Rightarrow> (string list \<Rightarrow> string list)
    \<Rightarrow> (string \<Rightarrow> Options \<Rightarrow> 'w \<Rightarrow> string \<times> 'w) \<Rightarrow> string \<Rightarrow> 'c \<Rightarrow> File \<Rightarrow> 'w \<times> call list
    \<Rightarrow> (('c, 'w) IStore option \<times> error option) \<times> File \<times> ('w \<times> call list)" where
  "Select stores rng ask DefaultStore ctx file W =
     (if length (Store file) > 0 then
        (case map_of stores (Store file) of
           Some store \<Rightarrow>
             (case st_Pre store ctx file (fst W) of
                (err, file', w') \<Rightarrow> ((Some store, err), file', (w', snd W @ [PreCalled (Store file)])))
         | None \<Rightarrow> ((None, Some ErrStoreNotFound), file, W))
      else
        (let supportedStores = supportedLoop (Type file) (map snd (goRange rng stores)) [];
             opts = \<lparr>Description = ''The remote storage solution where '' @ Path file
                       @ '' data will be pushed. ('' @ supportedStores @ '')'',
                     DefaultValue = DefaultStore\<rparr>
         in (case ask ''Remote Store'' opts (fst W) of
               (val, w1) \<Rightarrow>
                 (case map_of stores val of
                    Some store \<Rightarrow>
                      (case st_Pre store ctx file w1 of
                         (err, file', w') \<Rightarrow>
                           ((Some store, err), file',
                            (w', snd W @ [Prompted ''Remote Store'' opts, PreCalled val])))
                  | None \<Rightarrow>
                      ((None, Some ErrStoreNotFound), file,
                       (w1, snd W @ [Prompted ''Remote Store'' opts]))))))"

section \<open>Reading the log of a run\<close>

text \<open>
  The vocabulary of the theorems. \<open>statusError code res\<close> is the error that
  \<^verbatim>\<open>createKey\<close>, \<^verbatim>\<open>updateKey\<close> and \<^verbatim>\<open>deleteKey\<close> make of an answer when they expect
  the status \<open>code\<close>; \<open>answered code res\<close> says that the answer is a response with that
  status. \<open>harborKeysOf\<close> is the map \<^verbatim>\<open>getHarborKeys\<close> makes of an answer.
\<close>

definition answered :: "nat \<Rightarrow> error + response \<Rightarrow> bool" where
  "answered code res = (case res of Inl _ \<Rightarrow> False | Inr resp \<Rightarrow> StatusCode resp = code)"

definition statusError :: "nat \<Rightarrow> error + response \<Rightarrow> error option" where
  "statusError code res =
     (case res of
        Inl err \<Rightarrow> Some err
      | Inr resp \<Rightarrow> if StatusCode resp \<noteq> code then Some (Err (Status resp)) else None)"

definition harborKeysOf :: "HarborShipment \<Rightarrow> error + response \<Rightarrow> error + (string, harborKey) gomap" where
  "harborKeysOf shipment res =
     (case res of
        Inl err \<Rightarrow> Inl err
      | Inr resp \<Rightarrow>
          if StatusCode resp \<noteq> 200 then Inl (Err (Status resp))
          else (case RespBody resp of
                  Inl err \<Rightarrow> Inl err
                | Inr sh \<Rightarrow> Inr (containersLoop (ship_Container shipment) (Containers sh) [])))"

text \<open>The local keys of a Push: the parsed file and the sentinel.\<close>

definition localKeysOf :: "(string \<Rightarrow> (string, string) gomap) \<Rightarrow> string \<Rightarrow> string \<Rightarrow> (string, string) gomap" where
  "localKeysOf gotenv_Parse nowString fileData = AList.update modifiedToken nowString (gotenv_Parse fileData)"

text \<open>The pair Push sends for a local key and its value.\<close>

definition pushPair :: "string \<Rightarrow> (string, string) gomap \<Rightarrow> string \<Rightarrow> string \<Rightarrow> pair" where
  "pushPair envVarType fdata key val =
     \<lparr>p_Name = key, p_Value = val, p_Type = keyTypeFor envVarType fdata (addEnvVarPrefix key)\<rparr>"

text \<open>An exchange that creates or updates a key.\<close>

fun isUpsert :: "event \<Rightarrow> bool" where
  "isUpsert (Http r res) = (Method r = ''POST'' \<or> Method r = ''PUT'')"
| "isUpsert (Stdout line) = False"

text \<open>
  The pair \<open>p\<close> was written to the remote store: a create answered 201 or an update
  answered 200.
\<close>

fun wrote :: "pair \<Rightarrow> string \<Rightarrow> HarborAuth \<Rightarrow> event \<Rightarrow> bool" where
  "wrote p url auth (Http r res) =
     ((r = createReq p url auth \<and> answered 201 res) \<or> (r = updateReq p url auth \<and> answered 200 res))"
| "wrote p url auth (Stdout line) = False"

definition upserted :: "event list \<Rightarrow> pair \<Rightarrow> string \<Rightarrow> HarborAuth \<Rightarrow> bool" where
  "upserted evs p url auth = (\<exists>ev\<in>set evs. wrote p url auth ev)"

text \<open>The requests of a log, in order.\<close>

fun requests :: "event list \<Rightarrow> request list" where
  "requests [] = []"
| "requests (Http r res # evs) = r # requests evs"
| "requests (Stdout line # evs) = requests evs"

text \<open>The DELETE requests of a log, and those of them that were answered 200.\<close>

fun deleteRequests :: "event list \<Rightarrow> request list" where
  "deleteRequests [] = []"
| "deleteRequests (Http r res # evs) =
     (if Method r = ''DELETE'' then r # deleteRequests evs else deleteRequests evs)"
| "deleteRequests (Stdout line # evs) = deleteRequests evs"

fun deleted :: "event list \<Rightarrow> request list" where
  "deleted [] = []"
| "deleted (Http r res # evs) =
     (if Method r = ''DELETE'' \<and> answered 200 res then r # deleted evs else deleted evs)"
| "deleted (Stdout line # evs) = deleted evs"

text \<open>
  The line Pull writes for an entry of the remote store, and the entries of the remote
  store that a file claims: those whose prefixed key is in \<^verbatim>\<open>file.Data\<close>, the
  sentinel left out.
\<close>

definition envLine :: "string \<times> harborKey \<Rightarrow> string" where
  "envLine e = fst e @ ''='' @ hk_value (snd e) @ [CHR 0x0A]"

definition claimed :: "(string, string) gomap \<Rightarrow> string \<times> harborKey \<Rightarrow> bool" where
  "claimed fdata e = (fst e \<noteq> modifiedToken \<and> map_of fdata (addEnvVarPrefix (fst e)) \<noteq> None)"

text \<open>The map literal Push starts its metadata from: the three coordinates.\<close>

definition coordinates :: "HarborStore \<Rightarrow> (string, string) gomap" where
  "coordinates s = [(shipmentToken, ship_Name (Shipment s)), (containerToken, ship_Container (Shipment s)),
                  (envToken, ship_Env (Shipment s))]"

text \<open>
  The classification of a local key in the words of the specification: the one
  recorded in \<^verbatim>\<open>file.Data\<close> under the prefixed key when there is one and it differs from
  the generic marker, otherwise "hidden". It is compared with \<open>keyTypeFor\<close>, which is
  the code.
\<close>

definition classification :: "string \<Rightarrow> (string, string) gomap \<Rightarrow> string \<Rightarrow> string" where
  "classification envVarType fdata key =
     (case map_of fdata (addEnvVarPrefix key) of
        Some recorded \<Rightarrow> if recorded \<noteq> envVarType then recorded else ''hidden''
      | None \<Rightarrow> ''hidden'')"

text \<open>The names of a list of stores, separated by commas.\<close>

fun joinComma :: "string list \<Rightarrow> string" where
  "joinComma [] = []"
| "joinComma [x] = x"
| "joinComma (x # y # zs) = x @ '','' @ joinComma (y # zs)"

section \<open>A backend for the examples\<close>

text \<open>
  A small key-value server that follows the HTTP contract of section 6 of the
  specification, for one container: POST creates a key that does not exist (201),
  PUT updates a key that exists (200), DELETE removes a key that exists (200), GET
  lists the keys (200). Its state is the list of the variables of the container. It is
  used only to run the functions on concrete inputs.
\<close>

definition lastSegment :: "string \<Rightarrow> string" where
  "lastSegment url = rev (takeWhile (\<lambda>c. c \<noteq> CHR ''/'') (rev url))"

definition reply :: "nat \<Rightarrow> string \<Rightarrow> error + response" where
  "reply code status = Inr \<lparr>StatusCode = code, Status = status, RespBody = Inl (Err ''EOF'')\<rparr>"

definition simServer :: "string \<Rightarrow> (string, harborKey) gomap transport" where
  "simServer container req st =
     (if Method req = ''GET'' then
        (Inr \<lparr>StatusCode = 200, Status = ''200 OK'',
              RespBody = Inr \<lparr>Containers =
                [\<lparr>c_Name = container,
                  c_EnvVars = map (\<lambda>(k, h). \<lparr>ev_Name = k, ev_Value = hk_value h, ev_Type = hk_vType h\<rparr>) st\<rparr>]\<rparr>\<rparr>,
         st)
      else if Method req = ''POST'' then
        (case ReqBody req of
           NoBody \<Rightarrow> (reply 400 ''400 Bad Request'', st)
         | JSONPair p \<Rightarrow>
             (case map_of st (p_Name p) of
                Some _ \<Rightarrow> (reply 422 ''422 Unprocessable Entity'', st)
              | None \<Rightarrow>
                  (reply 201 ''201 Created'',
                   st @ [(p_Name p, \<lparr>hk_value = p_Value p, hk_vType = p_Type p\<rparr>)])))
      else if Method req = ''PUT'' then
        (case ReqBody req of
           NoBody \<Rightarrow> (reply 400 ''400 Bad Request'', st)
         | JSONPair p \<Rightarrow>
             (case map_of st (lastSegment (URL req)) of
                None \<Rightarrow> (reply 404 ''404 Not Found'', st)
              | Some _ \<Rightarrow>
                  (reply 200 ''200 OK'',
                   AList.update (lastSegment (URL req)) \<lparr>hk_value = p_Value p, hk_vType = p_Type p\<rparr> st)))
      else if Method req = ''DELETE'' then
        (case map_of st (lastSegment (URL req)) of
           None \<Rightarrow> (reply 404 ''404 Not Found'', st)
         | Some _ \<Rightarrow> (reply 200 ''200 OK'', AList.delete (lastSegment (URL req)) st))
      else (reply 405 ''405 Method Not Allowed'', st))"

text \<open>
  A server that answers 500 to every request that carries a pair for the key \<open>key\<close>, and
  otherwise behaves as \<open>T\<close>; and the iteration order that leaves a list as it is.
\<close>

definition rejecting :: "string \<Rightarrow> 'w transport \<Rightarrow> 'w transport" where
  "rejecting key T req st =
     (case ReqBody req of
        NoBody \<Rightarrow> T req st
      | JSONPair p \<Rightarrow>
          if p_Name p = key then (reply 500 ''500 Internal Server Error'', st) else T req st)"

definition inOrder :: "string list \<Rightarrow> string list" where
  "inOrder ks = ks"

text \<open>The inputs of the examples.\<close>

definition exShipment :: HarborShipment where
  "exShipment = \<lparr>ship_Name = ''app'', ship_Container = ''web'', ship_Env = ''dev''\<rparr>"

definition exStore :: HarborStore where
  "exStore = \<lparr>Auth = \<lparr>User = ''ann'', Token = ''t0''\<rparr>, Shipment = exShipment\<rparr>"

definition exFile :: "(string, string) gomap \<Rightarrow> File" where
  "exFile d = \<lparr>Path = ''.env'', Store = ''harbor'', Type = ''env'', IsEnv = True, Data = d\<rparr>"

definition exKey :: "string \<Rightarrow> harborKey" where
  "exKey v = \<lparr>hk_value = v, hk_vType = ''hidden''\<rparr>"

definition exRemote :: "(string, harborKey) gomap" where
  "exRemote = [(''X'', exKey ''1''),
               (''CSTORE_MODIFIED'', exKey ''2024-01-01 00:00:00.000000000 +0000 UTC'')]"

text \<open>
  A stand-in for \<^verbatim>\<open>time.Parse\<close> in the examples: times are the strings themselves, and
  a value parses when the layout is the fixed one and the value has the length of a
  full timestamp.
\<close>

definition exParse :: "string \<Rightarrow> string \<Rightarrow> string option" where
  "exParse layout v = (if layout = modifiedLayout \<and> length v = 39 then Some v else None)"

text \<open>
  The runs of Push in the examples. The local file has the keys \<^verbatim>\<open>a\<close> and \<^verbatim>\<open>b\<close>; the
  catalog entry owns \<^verbatim>\<open>a\<close>, \<^verbatim>\<open>b\<close> and \<^verbatim>\<open>c\<close>; the remote store holds these three and
  a key \<^verbatim>\<open>z\<close> of another file. \<open>exPush\<close> runs against the key-value server,
  \<open>exPushFail\<close> against the same server when it rejects every write of \<^verbatim>\<open>b\<close>, and
  \<open>exPushFoo\<close> pushes the single new key \<^verbatim>\<open>FOO\<close> to an empty store.
\<close>

definition exEnv :: "string \<Rightarrow> (string, string) gomap" where
  "exEnv fileData = [(''a'', ''1''), (''b'', ''2'')]"

definition exEnvFoo :: "string \<Rightarrow> (string, string) gomap" where
  "exEnvFoo fileData = [(''FOO'', ''bar'')]"

definition exNow :: string where
  "exNow = ''2024-01-01 00:00:00.000000000 +0000 UTC''"

definition exOwned :: File where
  "exOwned = exFile [(''ENV_a'', ''hidden''), (''ENV_b'', ''discover''), (''ENV_c'', ''hidden'')]"

definition exRemoteABC :: "(string, harborKey) gomap" where
  "exRemoteABC = [(''a'', exKey ''0''), (''b'', exKey ''0''), (''c'', exKey ''0''), (''z'', exKey ''9'')]"

definition exPush :: "((string, string) gomap \<times> bool \<times> error option) \<times> (string, harborKey) gomap world" where
  "exPush = Push (simServer ''web'') inOrder ''ENV'' exEnv exNow exStore ''ctx'' exOwned ''a=1 b=2''
              (exRemoteABC, [])"


definition exPushFoo :: "((string, string) gomap \<times> bool \<times> error option) \<times> (string, harborKey) gomap world" where
  "exPushFoo = Push (simServer ''web'') inOrder ''ENV'' exEnvFoo exNow exStore ''ctx'' (exFile []) ''FOO=bar''
                 ([], [])"

text \<open>
  Purge in the examples: the catalog entry records the key \<^verbatim>\<open>FOO\<close> as Push leaves it,
  under \<^verbatim>\<open>ENV_FOO\<close>, next to a coordinate; the remote store holds \<^verbatim>\<open>FOO\<close>.
\<close>

definition exPurge :: "error option \<times> (string, harborKey) gomap world" where
  "exPurge = Purge (simServer ''web'') inOrder exStore ''ctx''
               (exFile [(''HARBOR_SHIPMENT'', ''app''), (''ENV_FOO'', ''hidden'')])
               ([(''FOO'', exKey ''bar'')], [])"

text \<open>
  Pre in the examples: the vault holds nothing, the user answers every question with
  \<^verbatim>\<open>x\<close>, and the login is answered without an error and without success.
\<close>

definition exCollaborators :: "unit Collaborators" where
  "exCollaborators =
     \<lparr>NewAuthClient = (\<lambda>url. None),
      IsAuthenticated = (\<lambda>user token. False),
      Login = (\<lambda>user pass. ([], False, None)),
      vault_Get = (\<lambda>cv contextID key. Inl (Err ''not found'')),
      vault_Set = (\<lambda>cv contextID key val. (None, cv)),
      GetValFromUser = (\<lambda>name isSecret. ''x'')\<rparr>"

definition exPre :: "error option \<times> HarborStore \<times> unit" where
  "exPre = Pre exCollaborators exStore ''ctx'' (exFile []) ()"

text \<open>
  Select in the examples: the registry holds the store \<^verbatim>\<open>harbor\<close>, which supports the
  type \<^verbatim>\<open>env\<close>, and a store \<^verbatim>\<open>s3\<close>, which supports every type. The world counts the
  calls of Pre; Pre leaves the file as it is (the Pre of harbor\_store.go takes the file
  by value). The user answers \<^verbatim>\<open>harbor\<close>.
\<close>

definition exHarbor :: "(unit, nat) IStore" where
  "exHarbor = \<lparr>st_Name = ''harbor'', SupportsFileType = (\<lambda>t. t = ''env''),
               st_Pre = (\<lambda>ctx file n. (None, file, Suc n))\<rparr>"

definition exS3 :: "(unit, nat) IStore" where
  "exS3 = \<lparr>st_Name = ''s3'', SupportsFileType = (\<lambda>t. True),
           st_Pre = (\<lambda>ctx file n. (None, file, Suc n))\<rparr>"

definition exStores :: "(string, (unit, nat) IStore) gomap" where
  "exStores = [(''harbor'', exHarbor), (''s3'', exS3)]"

definition exAsk :: "string \<Rightarrow> Options \<Rightarrow> nat \<Rightarrow> string \<times> nat" where
  "exAsk name opts n = (''harbor'', n)"

definition exNewFile :: File where
  "exNewFile = \<lparr>Path = ''.env'', Store = [], Type = ''env'', IsEnv = True, Data = []\<rparr>"

definition exSelectBound :: "((unit, nat) IStore option \<times> error option) \<times> File \<times> (nat \<times> call list)" where
  "exSelectBound = Select exStores inOrder exAsk ''s3'' () (exFile []) (0, [])"

definition exSelectUnknown :: "((unit, nat) IStore option \<times> error option) \<times> File \<times> (nat \<times> call list)" where
  "exSelectUnknown = Select exStores inOrder exAsk ''s3'' () ((exFile [])\<lparr>Store := ''unknown''\<rparr>) (0, [])"

definition exSelectNew :: "((unit, nat) IStore option \<times> error option) \<times> File \<times> (nat \<times> call list)" where
  "exSelectNew = Select exStores inOrder exAsk ''s3'' () exNewFile (0, [])"

section \<open>Go maps and their iteration\<close>

lemma map_filter_all_Some:
  "\<forall>k\<in>set ks. \<exists>v. f k = Some v \<Longrightarrow> map fst (List.map_filter (\<lambda>k. map_option (Pair k) (f k)) ks) = ks"
  by (induction ks) (auto simp: List.map_filter_simps)

lemma goRange_keys:
  assumes "order_ok rng" "distinct (map fst m)"
  shows "map fst (goRange rng m) = rng (map fst m)"
proof -
  have "set (rng (map fst m)) = set (map fst m)"
    using assms by (simp add: order_ok_def)
  then have "\<forall>k\<in>set (rng (map fst m)). \<exists>v. map_of m k = Some v"
    by (metis (no_types, lifting) domD dom_map_of_conv_image_fst list.set_map)
  then show ?thesis
    unfolding goRange_def by (rule map_filter_all_Some)
qed

lemma goRange_lookup: "(k, v) \<in> set (goRange rng m) \<Longrightarrow> map_of m k = Some v"
  by (auto simp: goRange_def List.map_filter_def)

lemma goRange_distinct:
  assumes "order_ok rng" "distinct (map fst m)"
  shows "distinct (map fst (goRange rng m))"
  using assms by (simp add: goRange_keys order_ok_def)

lemma goRange_set:
  assumes "order_ok rng" "distinct (map fst m)"
  shows "set (goRange rng m) = set m"
proof
  show "set (goRange rng m) \<subseteq> set m"
    by (auto dest!: goRange_lookup map_of_SomeD)
  show "set m \<subseteq> set (goRange rng m)"
  proof
    fix x assume x: "x \<in> set m"
    obtain k v where kv: "x = (k, v)" by (cases x)
    have "k \<in> set (map fst (goRange rng m))"
      using assms x kv by (force simp add: goRange_keys order_ok_def)
    then obtain v' where "(k, v') \<in> set (goRange rng m)" by auto
    moreover from this have "map_of m k = Some v'" by (rule goRange_lookup)
    moreover have "map_of m k = Some v" using assms(2) x kv by simp
    ultimately show "x \<in> set (goRange rng m)" using kv by simp
  qed
qed

lemma order_ok_inOrder: "order_ok inOrder"
  by (simp add: order_ok_def inOrder_def)

section \<open>The remote calls\<close>

lemma createKey_eq:
  "createKey T p url auth w =
     (statusError 201 (fst (T (createReq p url auth) (fst w))),
      (snd (T (createReq p url auth) (fst w)),
       snd w @ [Http (createReq p url auth) (fst (T (createReq p url auth) (fst w)))]))"
  by (simp add: createKey_def Do_def statusError_def split: prod.splits sum.splits)

lemma updateKey_eq:
  "updateKey T p url auth w =
     (statusError 200 (fst (T (updateReq p url auth) (fst w))),
      (snd (T (updateReq p url auth) (fst w)),
       snd w @ [Http (updateReq p url auth) (fst (T (updateReq p url auth) (fst w)))]))"
  by (simp add: updateKey_def Do_def statusError_def split: prod.splits sum.splits)

lemma deleteKey_eq:
  "deleteKey T key url auth w =
     (statusError 200 (fst (T (deleteReq key url auth) (fst w))),
      (snd (T (deleteReq key url auth) (fst w)),
       snd w @ [Http (deleteReq key url auth) (fst (T (deleteReq key url auth) (fst w)))]))"
  by (simp add: deleteKey_def Do_def statusError_def split: prod.splits sum.splits)

lemma getHarborKeys_eq:
  "getHarborKeys T shipment auth w =
     (harborKeysOf shipment (fst (T (getReq shipment auth) (fst w))),
      (snd (T (getReq shipment auth) (fst w)),
       snd w @ [Http (getReq shipment auth) (fst (T (getReq shipment auth) (fst w)))]))"
  by (simp add: getHarborKeys_def Do_def harborKeysOf_def split: prod.splits sum.splits)

lemma statusError_None: "statusError code res = None \<longleftrightarrow> answered code res"
  by (simp add: statusError_def answered_def split: sum.splits)

lemma envVarsLoop_distinct:
  "distinct (map fst acc) \<Longrightarrow> distinct (map fst (envVarsLoop vs acc))"
  by (induction vs arbitrary: acc) (simp_all add: distinct_update)

lemma containersLoop_distinct:
  "distinct (map fst acc) \<Longrightarrow> distinct (map fst (containersLoop c cs acc))"
  by (induction cs arbitrary: acc) (simp_all add: envVarsLoop_distinct)

lemma harborKeysOf_distinct: "harborKeysOf shipment res = Inr keys \<Longrightarrow> distinct (map fst keys)"
  by (auto simp: harborKeysOf_def containersLoop_distinct split: sum.splits if_splits)

lemma getHarborKeys_distinct:
  "getHarborKeys T shipment auth w = (Inr keys, w') \<Longrightarrow> distinct (map fst keys)"
  by (auto simp: getHarborKeys_eq dest: harborKeysOf_distinct)

text \<open>Unfolding the examples.\<close>

lemmas ex_defs = exStore_def exShipment_def exKey_def exFile_def exRemote_def inOrder_def
lemmas const_defs = shipURL_def modifiedToken_def modifiedLayout_def envTypeHidden_def
  envTypeBasic_def envTypeDiscover_def shipmentToken_def containerToken_def envToken_def
  addEnvVarPrefix_def
lemmas req_defs = getReq_def createReq_def updateReq_def deleteReq_def buildURL_def
lemmas server_defs = simServer_def reply_def lastSegment_def

section \<open>Pull\<close>

lemma pullLoop_spec:
  "pullLoop fdata kvs buffer = buffer @ concat (map envLine (filter (claimed fdata) kvs))"
  by (induction kvs arbitrary: buffer) (auto simp: envLine_def claimed_def split: option.splits)

text \<open>
  Claim C9. When the remote key set is fetched, the body Pull returns is made of one
  \<^verbatim>\<open>key=value\<close> line for each entry of a list \<open>es\<close> with pairwise distinct keys, and an
  entry is in \<open>es\<close> if and only if it is an entry of the remote key set, its key is not
  the last-modified sentinel and \<^verbatim>\<open>file.Data\<close> holds its prefixed key. So a remote key
  has a line exactly when the file claims it, and the sentinel never has one, claimed
  or not. This holds for every iteration order of the Go map.
\<close>

theorem Pull_emits_claimed_keys:
  assumes ord: "order_ok rng"
    and fetch: "getHarborKeys T (Shipment s) (Auth s) w = (Inr keys, w')"
  shows "\<exists>es attr.
           Pull T rng time_Parse now s contextKey file w = (Inr (concat (map envLine es), attr), w')
         \<and> distinct (map fst es)
         \<and> (\<forall>key contents. (key, contents) \<in> set es \<longleftrightarrow>
               (map_of keys key = Some contents \<and> key \<noteq> modifiedToken
                \<and> map_of (Data file) (addEnvVarPrefix key) \<noteq> None))"
proof -
  let ?es = "filter (claimed (Data file)) (goRange rng keys)"
  have d: "distinct (map fst keys)"
    using fetch by (rule getHarborKeys_distinct)
  have "distinct (map fst (goRange rng keys))"
    using ord d by (rule goRange_distinct)
  then have 1: "distinct (map fst ?es)"
    by (rule distinct_map_filter)
  have "set (goRange rng keys) = set keys"
    using ord d by (rule goRange_set)
  then have 2: "(key, contents) \<in> set ?es \<longleftrightarrow>
      (map_of keys key = Some contents \<and> key \<noteq> modifiedToken
       \<and> map_of (Data file) (addEnvVarPrefix key) \<noteq> None)" for key contents
    using d by (auto simp: claimed_def)
  have 3: "\<exists>attr. Pull T rng time_Parse now s contextKey file w = (Inr (concat (map envLine ?es), attr), w')"
    using fetch by (simp add: Pull_def pullLoop_spec Let_def)
  from 1 2 3 show ?thesis by blast
qed

lemma ex_fetch:
  "fst (getHarborKeys (simServer ''web'') (Shipment exStore) (Auth exStore) (exRemote, [])) = Inr exRemote"
  by (simp add: getHarborKeys_eq harborKeysOf_def ex_defs server_defs req_defs)

lemma ex_pull:
  "fst (Pull (simServer ''web'') inOrder exParse ''now'' exStore ''ctx''
          (exFile [(''ENV_X'', ''hidden'')]) (exRemote, []))
   = Inr (''X=1'' @ [CHR 0x0A], \<lparr>LastModified = ''2024-01-01 00:00:00.000000000 +0000 UTC''\<rparr>)"
  by (simp add: Pull_def getHarborKeys_eq harborKeysOf_def ex_defs server_defs req_defs const_defs
      goRange_def List.map_filter_simps exParse_def)

text \<open>
  The scenario of the specification: the remote store holds \<^verbatim>\<open>X\<close> with the value
  \<^verbatim>\<open>1\<close> and the sentinel, the file claims \<^verbatim>\<open>X\<close> only. Pull returns the bytes
  \<^verbatim>\<open>X=1\<close> and a newline.
\<close>

theorem Pull_emits_claimed_keys_witness:
  "order_ok inOrder
   \<and> fst (getHarborKeys (simServer ''web'') (Shipment exStore) (Auth exStore) (exRemote, [])) = Inr exRemote
   \<and> (\<exists>es attr. fst (Pull (simServer ''web'') inOrder exParse ''now'' exStore ''ctx''
                      (exFile [(''ENV_X'', ''hidden'')]) (exRemote, [])) = Inr (concat (map envLine es), attr)
        \<and> distinct (map fst es)
        \<and> (\<forall>key contents. (key, contents) \<in> set es \<longleftrightarrow>
               (map_of exRemote key = Some contents \<and> key \<noteq> modifiedToken
                \<and> map_of (Data (exFile [(''ENV_X'', ''hidden'')])) (addEnvVarPrefix key) \<noteq> None)))
   \<and> fst (Pull (simServer ''web'') inOrder exParse ''now'' exStore ''ctx''
             (exFile [(''ENV_X'', ''hidden'')]) (exRemote, []))
       = Inr (''X=1'' @ [CHR 0x0A], \<lparr>LastModified = ''2024-01-01 00:00:00.000000000 +0000 UTC''\<rparr>)"
proof -
  let ?P = "Pull (simServer ''web'') inOrder exParse ''now'' exStore ''ctx''
              (exFile [(''ENV_X'', ''hidden'')]) (exRemote, [])"
  obtain w' where f: "getHarborKeys (simServer ''web'') (Shipment exStore) (Auth exStore) (exRemote, []) = (Inr exRemote, w')"
    using ex_fetch by (metis prod.collapse)
  from Pull_emits_claimed_keys [OF order_ok_inOrder f, of exParse "''now''" "''ctx''" "exFile [(''ENV_X'', ''hidden'')]"]
  obtain es attr where a: "?P = (Inr (concat (map envLine es), attr), w')"
    and b: "distinct (map fst es)"
    and c: "\<forall>key contents. (key, contents) \<in> set es \<longleftrightarrow>
               (map_of exRemote key = Some contents \<and> key \<noteq> modifiedToken
                \<and> map_of (Data (exFile [(''ENV_X'', ''hidden'')])) (addEnvVarPrefix key) \<noteq> None)"
    by (elim exE conjE)
  from a have a': "fst ?P = Inr (concat (map envLine es), attr)" by simp
  have "\<exists>es attr. fst ?P = Inr (concat (map envLine es), attr)
        \<and> distinct (map fst es)
        \<and> (\<forall>key contents. (key, contents) \<in> set es \<longleftrightarrow>
               (map_of exRemote key = Some contents \<and> key \<noteq> modifiedToken
                \<and> map_of (Data (exFile [(''ENV_X'', ''hidden'')])) (addEnvVarPrefix key) \<noteq> None))"
    using a' b c by (intro exI conjI)
  then show ?thesis
    using order_ok_inOrder ex_fetch ex_pull by (intro conjI)
qed

section \<open>Push: the two loops\<close>

lemma pushLoop_shift:
  "pushLoop T evt fd url auth kvs data (w0, log0) =
     (case pushLoop T evt fd url auth kvs data (w0, []) of
        (e, d, (w', evs)) \<Rightarrow> (e, d, (w', log0 @ evs)))"
proof (induction kvs arbitrary: data w0 log0)
  case Nil
  show ?case by simp
next
  case (Cons kv rest)
  obtain k v where kv: "kv = (k, v)" by (cases kv)
  let ?p = "\<lparr>p_Name = k, p_Value = v, p_Type = keyTypeFor evt fd (addEnvVarPrefix k)\<rparr>"
  let ?a1 = "T (createReq ?p url auth) w0"
  let ?e1 = "Http (createReq ?p url auth) (fst ?a1)"
  let ?a2 = "T (updateReq ?p url auth) (snd ?a1)"
  let ?e2 = "Http (updateReq ?p url auth) (fst ?a2)"
  note IH1 = Cons.IH [of _ _ "log0 @ [?e1]"] Cons.IH [of _ _ "[?e1]"]
  note IH2 = Cons.IH [of _ _ "log0 @ [?e1, ?e2]"] Cons.IH [of _ _ "[?e1, ?e2]"]
  show ?case
    unfolding kv
    by (simp add: Let_def createKey_eq updateKey_eq IH1 IH2 split: option.splits prod.splits)
qed

lemma pushLoop_Cons_run:
  "pushLoop T evt fd url auth ((k, v) # rest) data (w0, []) =
     (let p = pushPair evt fd k v;
          a1 = T (createReq p url auth) w0;
          ev1 = Http (createReq p url auth) (fst a1);
          data1 = AList.update (addEnvVarPrefix k) (p_Type p) data
      in if answered 201 (fst a1) then
           (case pushLoop T evt fd url auth rest data1 (snd a1, []) of
              (e, d, (w', evs)) \<Rightarrow> (e, d, (w', ev1 # evs)))
         else
           (let a2 = T (updateReq p url auth) (snd a1);
                ev2 = Http (updateReq p url auth) (fst a2)
            in if answered 200 (fst a2) then
                 (case pushLoop T evt fd url auth rest data1 (snd a2, []) of
                    (e, d, (w', evs)) \<Rightarrow> (e, d, (w', ev1 # ev2 # evs)))
               else (statusError 200 (fst a2), data, (snd a2, [ev1, ev2]))))"
proof -
  let ?p = "pushPair evt fd k v"
  let ?a1 = "T (createReq ?p url auth) w0"
  let ?e1 = "Http (createReq ?p url auth) (fst ?a1)"
  let ?a2 = "T (updateReq ?p url auth) (snd ?a1)"
  let ?e2 = "Http (updateReq ?p url auth) (fst ?a2)"
  note sh = pushLoop_shift [of _ _ _ _ _ _ _ _ "[?e1]"] pushLoop_shift [of _ _ _ _ _ _ _ _ "[?e1, ?e2]"]
  have P: "\<lparr>p_Name = k, p_Value = v, p_Type = keyTypeFor evt fd (addEnvVarPrefix k)\<rparr> = pushPair evt fd k v"
    by (simp add: pushPair_def)
  have Ty: "p_Type (pushPair evt fd k v) = keyTypeFor evt fd (addEnvVarPrefix k)"
    by (simp add: pushPair_def)
  show ?thesis
    by (simp add: Let_def P Ty createKey_eq updateKey_eq sh statusError_None [symmetric]
        split: option.splits)
qed


lemma pushLoop_run_induct [consumes 1, case_names Nil Created Updated Failed]:
  assumes run: "pushLoop T evt fd url auth kvs data (w0, []) = (e, d, (w', evs))"
    and Nil: "\<And>data w0. P [] data w0 None data w0 []"
    and Created: "\<And>k v rest data w0 e d w' evs res w1.
        T (createReq (pushPair evt fd k v) url auth) w0 = (res, w1) \<Longrightarrow> answered 201 res \<Longrightarrow>
        pushLoop T evt fd url auth rest
          (AList.update (addEnvVarPrefix k) (keyTypeFor evt fd (addEnvVarPrefix k)) data) (w1, [])
          = (e, d, (w', evs)) \<Longrightarrow>
        P rest (AList.update (addEnvVarPrefix k) (keyTypeFor evt fd (addEnvVarPrefix k)) data) w1 e d w' evs \<Longrightarrow>
        P ((k, v) # rest) data w0 e d w' (Http (createReq (pushPair evt fd k v) url auth) res # evs)"
    and Updated: "\<And>k v rest data w0 e d w' evs res1 w1 res2 w2.
        T (createReq (pushPair evt fd k v) url auth) w0 = (res1, w1) \<Longrightarrow> \<not> answered 201 res1 \<Longrightarrow>
        T (updateReq (pushPair evt fd k v) url auth) w1 = (res2, w2) \<Longrightarrow> answered 200 res2 \<Longrightarrow>
        pushLoop T evt fd url auth rest
          (AList.update (addEnvVarPrefix k) (keyTypeFor evt fd (addEnvVarPrefix k)) data) (w2, [])
          = (e, d, (w', evs)) \<Longrightarrow>
        P rest (AList.update (addEnvVarPrefix k) (keyTypeFor evt fd (addEnvVarPrefix k)) data) w2 e d w' evs \<Longrightarrow>
        P ((k, v) # rest) data w0 e d w'
          (Http (createReq (pushPair evt fd k v) url auth) res1
           # Http (updateReq (pushPair evt fd k v) url auth) res2 # evs)"
    and Failed: "\<And>k v rest data w0 res1 w1 res2 w2.
        T (createReq (pushPair evt fd k v) url auth) w0 = (res1, w1) \<Longrightarrow> \<not> answered 201 res1 \<Longrightarrow>
        T (updateReq (pushPair evt fd k v) url auth) w1 = (res2, w2) \<Longrightarrow> \<not> answered 200 res2 \<Longrightarrow>
        P ((k, v) # rest) data w0 (statusError 200 res2) data w2
          [Http (createReq (pushPair evt fd k v) url auth) res1,
           Http (updateReq (pushPair evt fd k v) url auth) res2]"
  shows "P kvs data w0 e d w' evs"
  using run
proof (induction kvs arbitrary: data w0 e d w' evs)
  case Nil': Nil
  then show ?case using Nil by simp
next
  case (Cons kv rest)
  obtain k v where kv: "kv = (k, v)" by (cases kv)
  let ?p = "pushPair evt fd k v"
  let ?d1 = "AList.update (addEnvVarPrefix k) (keyTypeFor evt fd (addEnvVarPrefix k)) data"
  obtain res1 w1 where a1: "T (createReq ?p url auth) w0 = (res1, w1)" by (cases "T (createReq ?p url auth) w0")
  obtain res2 w2 where a2: "T (updateReq ?p url auth) w1 = (res2, w2)" by (cases "T (updateReq ?p url auth) w1")
  have Ty: "p_Type ?p = keyTypeFor evt fd (addEnvVarPrefix k)" by (simp add: pushPair_def)
  note run = Cons.prems [unfolded kv pushLoop_Cons_run Let_def a1 a2 Ty fst_conv snd_conv]
  show ?case
  proof (cases "answered 201 res1")
    case True
    obtain e0 d0 w0' evs0 where r: "pushLoop T evt fd url auth rest ?d1 (w1, []) = (e0, d0, (w0', evs0))"
      by (metis prod.collapse)
    with run True have eq: "e = e0" "d = d0" "w' = w0'" "evs = Http (createReq ?p url auth) res1 # evs0"
      by simp_all
    show ?thesis
      unfolding kv eq using a1 True r Cons.IH [OF r] by (rule Created)
  next
    case c: False
    show ?thesis
    proof (cases "answered 200 res2")
      case True
      obtain e0 d0 w0' evs0 where r: "pushLoop T evt fd url auth rest ?d1 (w2, []) = (e0, d0, (w0', evs0))"
        by (metis prod.collapse)
      with run c True have eq: "e = e0" "d = d0" "w' = w0'"
          "evs = Http (createReq ?p url auth) res1 # Http (updateReq ?p url auth) res2 # evs0"
        by simp_all
      show ?thesis
        unfolding kv eq using a1 c a2 True r Cons.IH [OF r] by (rule Updated)
    next
      case False
      with run c have eq: "e = statusError 200 res2" "d = data" "w' = w2"
          "evs = [Http (createReq ?p url auth) res1, Http (updateReq ?p url auth) res2]"
        by simp_all
      show ?thesis
        unfolding kv eq using a1 c a2 False by (rule Failed)
    qed
  qed
qed

lemma createReq_inj [simp]: "createReq p url auth = createReq q url auth \<longleftrightarrow> p = q"
  by (auto simp: createReq_def)

lemma updateReq_inj [simp]: "updateReq p url auth = updateReq q url auth \<longleftrightarrow> p = q"
  by (auto simp: updateReq_def)

lemma createReq_neq_updateReq [simp]:
  "createReq p url auth \<noteq> updateReq q url' auth'" "updateReq q url' auth' \<noteq> createReq p url auth"
  by (auto simp: createReq_def updateReq_def)

lemma Method_simps [simp]:
  "Method (createReq p url auth) = ''POST''" "Method (updateReq p url auth) = ''PUT''"
  "Method (deleteReq k url auth) = ''DELETE''" "Method (getReq sh auth) = ''GET''"
  by (simp_all add: createReq_def updateReq_def deleteReq_def getReq_def)

lemma pushPair_simps [simp]:
  "p_Name (pushPair evt fd k v) = k" "p_Value (pushPair evt fd k v) = v"
  "p_Type (pushPair evt fd k v) = keyTypeFor evt fd (addEnvVarPrefix k)"
  by (simp_all add: pushPair_def)

lemma pushPair_eq: "pushPair evt fd k v = pushPair evt fd k' v' \<longleftrightarrow> k = k' \<and> v = v'"
  by (auto simp: pushPair_def)

lemma wrote_create [simp]:
  "wrote q url auth (Http (createReq p url auth) res) \<longleftrightarrow> (p = q \<and> answered 201 res)"
  by auto

lemma wrote_update [simp]:
  "wrote q url auth (Http (updateReq p url auth) res) \<longleftrightarrow> (p = q \<and> answered 200 res)"
  by auto

lemma upserted_Nil [simp]: "\<not> upserted [] q url auth"
  by (simp add: upserted_def)

lemma upserted_Cons [simp]:
  "upserted (ev # evs) q url auth \<longleftrightarrow> wrote q url auth ev \<or> upserted evs q url auth"
  by (simp add: upserted_def)

lemma upserted_append:
  "upserted (evs @ evs') q url auth \<longleftrightarrow> upserted evs q url auth \<or> upserted evs' q url auth"
  by (auto simp: upserted_def)

declare wrote.simps [simp del]

lemma pushLoop_events:
  assumes "pushLoop T evt fd url auth kvs data (w0, []) = (e, d, (w', evs))"
  shows "\<forall>ev\<in>set evs. \<exists>kv\<in>set kvs. \<exists>res.
           ev = Http (createReq (pushPair evt fd (fst kv) (snd kv)) url auth) res
         \<or> ev = Http (updateReq (pushPair evt fd (fst kv) (snd kv)) url auth) res"
  using assms by (induction rule: pushLoop_run_induct) auto

lemma pushLoop_success:
  assumes "pushLoop T evt fd url auth kvs data (w0, []) = (e, d, (w', evs))"
  shows "e = None \<longrightarrow> (\<forall>kv\<in>set kvs. upserted evs (pushPair evt fd (fst kv) (snd kv)) url auth)"
  using assms by (induction rule: pushLoop_run_induct) (auto simp: statusError_None)


lemma pushLoop_error:
  assumes "pushLoop T evt fd url auth kvs data (w0, []) = (e, d, (w', evs))"
  shows "e \<noteq> None \<longrightarrow> (\<exists>kv\<in>set kvs. \<exists>res. evs \<noteq> [] \<and>
            last evs = Http (updateReq (pushPair evt fd (fst kv) (snd kv)) url auth) res
            \<and> \<not> answered 200 res \<and> e = statusError 200 res)"
  using assms by (induction rule: pushLoop_run_induct) auto


lemma pushLoop_data:
  assumes "pushLoop T evt fd url auth kvs data (w0, []) = (e, d, (w', evs))"
  shows "distinct (map fst kvs) \<longrightarrow>
         d = foldl (\<lambda>d kv. AList.update (addEnvVarPrefix (fst kv)) (keyTypeFor evt fd (addEnvVarPrefix (fst kv))) d)
               data (filter (\<lambda>kv. upserted evs (pushPair evt fd (fst kv) (snd kv)) url auth) kvs)"
  using assms
proof (induction rule: pushLoop_run_induct)
  case (Created k v rest data w0 e d w' evs res w1)
  have "filter (\<lambda>kv. upserted (Http (createReq (pushPair evt fd k v) url auth) res # evs) (pushPair evt fd (fst kv) (snd kv)) url auth) rest
      = filter (\<lambda>kv. upserted evs (pushPair evt fd (fst kv) (snd kv)) url auth) rest"
    if "k \<notin> fst ` set rest"
    using that by (intro filter_cong) (auto simp: pushPair_eq)
  with Created show ?case by auto
next
  case (Updated k v rest data w0 e d w' evs res1 w1 res2 w2)
  have "filter (\<lambda>kv. upserted (Http (createReq (pushPair evt fd k v) url auth) res1
            # Http (updateReq (pushPair evt fd k v) url auth) res2 # evs) (pushPair evt fd (fst kv) (snd kv)) url auth) rest
      = filter (\<lambda>kv. upserted evs (pushPair evt fd (fst kv) (snd kv)) url auth) rest"
    if "k \<notin> fst ` set rest"
    using that by (intro filter_cong) (auto simp: pushPair_eq)
  with Updated show ?case by auto
qed auto

lemma pushDeleteLoop_shift:
  "pushDeleteLoop T fd lk url auth ks (w0, log0) =
     (case pushDeleteLoop T fd lk url auth ks (w0, []) of (e, (w', evs)) \<Rightarrow> (e, (w', log0 @ evs)))"
proof (induction ks arbitrary: w0 log0)
  case Nil
  show ?case by simp
next
  case (Cons k rest)
  let ?l = "Stdout (deletingLine k)"
  let ?a = "T (deleteReq k url auth) w0"
  let ?ev = "Http (deleteReq k url auth) (fst ?a)"
  note IH = Cons.IH [of _ "log0 @ [?l, ?ev]"] Cons.IH [of _ "[?l, ?ev]"] Cons.IH [of _ log0]
  show ?case
    by (simp add: Let_def deleteKey_eq Printf_def IH split: option.splits prod.splits)
qed

lemma pushDeleteLoop_Cons_run:
  "pushDeleteLoop T fd lk url auth (k # rest) (w0, []) =
     (if map_of fd (addEnvVarPrefix k) \<noteq> None \<and> map_of lk k = None then
        (let a = T (deleteReq k url auth) w0;
             l = Stdout (deletingLine k);
             ev = Http (deleteReq k url auth) (fst a)
         in if answered 200 (fst a) then
              (case pushDeleteLoop T fd lk url auth rest (snd a, []) of
                 (e, (w', evs)) \<Rightarrow> (e, (w', l # ev # evs)))
            else (statusError 200 (fst a), (snd a, [l, ev])))
      else pushDeleteLoop T fd lk url auth rest (w0, []))"
proof -
  let ?l = "Stdout (deletingLine k)"
  let ?a = "T (deleteReq k url auth) w0"
  let ?ev = "Http (deleteReq k url auth) (fst ?a)"
  note sh = pushDeleteLoop_shift [of _ _ _ _ _ _ _ "[?l, ?ev]"]
  show ?thesis
    by (simp add: Let_def deleteKey_eq Printf_def sh statusError_None [symmetric] split: option.splits)
qed

lemma pushDeleteLoop_run_induct [consumes 1, case_names Nil Skip Deleted Failed]:
  assumes run: "pushDeleteLoop T fd lk url auth ks (w0, []) = (e, (w', evs))"
    and Nil: "\<And>w0. P [] w0 None w0 []"
    and Skip: "\<And>k rest w0 e w' evs.
        \<not> (map_of fd (addEnvVarPrefix k) \<noteq> None \<and> map_of lk k = None) \<Longrightarrow>
        pushDeleteLoop T fd lk url auth rest (w0, []) = (e, (w', evs)) \<Longrightarrow>
        P rest w0 e w' evs \<Longrightarrow> P (k # rest) w0 e w' evs"
    and Deleted: "\<And>k rest w0 e w' evs res w1.
        map_of fd (addEnvVarPrefix k) \<noteq> None \<Longrightarrow> map_of lk k = None \<Longrightarrow>
        T (deleteReq k url auth) w0 = (res, w1) \<Longrightarrow> answered 200 res \<Longrightarrow>
        pushDeleteLoop T fd lk url auth rest (w1, []) = (e, (w', evs)) \<Longrightarrow>
        P rest w1 e w' evs \<Longrightarrow>
        P (k # rest) w0 e w'
          (Stdout (deletingLine k) # Http (deleteReq k url auth) res # evs)"
    and Failed: "\<And>k rest w0 res w1.
        map_of fd (addEnvVarPrefix k) \<noteq> None \<Longrightarrow> map_of lk k = None \<Longrightarrow>
        T (deleteReq k url auth) w0 = (res, w1) \<Longrightarrow> \<not> answered 200 res \<Longrightarrow>
        P (k # rest) w0 (statusError 200 res) w1
          [Stdout (deletingLine k), Http (deleteReq k url auth) res]"
  shows "P ks w0 e w' evs"
  using run
proof (induction ks arbitrary: w0 e w' evs)
  case Nil': Nil
  then show ?case using Nil by simp
next
  case (Cons k rest)
  obtain res w1 where a: "T (deleteReq k url auth) w0 = (res, w1)"
    by (cases "T (deleteReq k url auth) w0")
  note run = Cons.prems [unfolded pushDeleteLoop_Cons_run Let_def a fst_conv snd_conv]
  show ?case
  proof (cases "map_of fd (addEnvVarPrefix k) \<noteq> None \<and> map_of lk k = None")
    case False
    with run have r: "pushDeleteLoop T fd lk url auth rest (w0, []) = (e, (w', evs))"
      by (auto split: if_splits)
    show ?thesis using False r Cons.IH [OF r] by (rule Skip)
  next
    case own: True
    then have o1: "map_of fd (addEnvVarPrefix k) \<noteq> None" and o2: "map_of lk k = None" by simp_all
    show ?thesis
    proof (cases "answered 200 res")
      case True
      obtain e0 w0' evs0 where r: "pushDeleteLoop T fd lk url auth rest (w1, []) = (e0, (w0', evs0))"
        by (metis prod.collapse)
      with run o1 o2 True have eq: "e = e0" "w' = w0'"
          "evs = Stdout (deletingLine k) # Http (deleteReq k url auth) res # evs0"
        by auto
      show ?thesis
        unfolding eq using o1 o2 a True r Cons.IH [OF r] by (rule Deleted)
    next
      case False
      with run o1 o2 have eq: "e = statusError 200 res" "w' = w1"
          "evs = [Stdout (deletingLine k), Http (deleteReq k url auth) res]"
        by auto
      show ?thesis
        unfolding eq using o1 o2 a False by (rule Failed)
    qed
  qed
qed

lemma pushDeleteLoop_events:
  assumes "pushDeleteLoop T fd lk url auth ks (w0, []) = (e, (w', evs))"
  shows "\<forall>ev\<in>set evs. (\<exists>l. ev = Stdout l) \<or>
           (\<exists>k\<in>set ks. \<exists>res. map_of fd (addEnvVarPrefix k) \<noteq> None \<and> map_of lk k = None
              \<and> ev = Http (deleteReq k url auth) res)"
  using assms by (induction rule: pushDeleteLoop_run_induct) auto

lemma pushDeleteLoop_deleted:
  assumes "pushDeleteLoop T fd lk url auth ks (w0, []) = (e, (w', evs))"
  shows "\<exists>n. deleted evs = map (\<lambda>k. deleteReq k url auth)
            (take n (filter (\<lambda>k. map_of fd (addEnvVarPrefix k) \<noteq> None \<and> map_of lk k = None) ks))"
  using assms
proof (induction rule: pushDeleteLoop_run_induct)
  case (Nil w0)
  show ?case by simp
next
  case (Skip k rest w0 e w' evs)
  then show ?case by auto
next
  case (Deleted k rest w0 e w' evs res w1)
  then obtain n where "deleted evs = map (\<lambda>k. deleteReq k url auth)
            (take n (filter (\<lambda>k. map_of fd (addEnvVarPrefix k) \<noteq> None \<and> map_of lk k = None) rest))"
    by blast
  with Deleted(1,2,4) show ?case
    by (intro exI [of _ "Suc n"]) simp
next
  case (Failed k rest w0 res w1)
  then show ?case by (intro exI [of _ 0]) simp
qed

lemma pushDeleteLoop_success:
  assumes "pushDeleteLoop T fd lk url auth ks (w0, []) = (e, (w', evs))"
  shows "e = None \<longrightarrow>
           deleted evs = map (\<lambda>k. deleteReq k url auth)
              (filter (\<lambda>k. map_of fd (addEnvVarPrefix k) \<noteq> None \<and> map_of lk k = None) ks)
         \<and> deleteRequests evs = deleted evs"
  using assms by (induction rule: pushDeleteLoop_run_induct) (auto simp: statusError_None)

section \<open>Push: the run as a whole\<close>

lemma Push_run [consumes 1, case_names UpsertFailed FetchFailed Fetched]:
  assumes run: "Push T rng evt parse now s ck file fileData w = ((data, vers, err), w')"
  obtains
    e w1 evs1 where
      "pushLoop T evt (Data file) (buildURL (Shipment s)) (Auth s)
         (goRange rng (localKeysOf parse now fileData)) (coordinates s) (fst w, []) = (Some e, data, (w1, evs1))"
      "err = Some e" "w' = (w1, snd w @ evs1)" "vers = False"
  | w1 evs1 res w2 e where
      "pushLoop T evt (Data file) (buildURL (Shipment s)) (Auth s)
         (goRange rng (localKeysOf parse now fileData)) (coordinates s) (fst w, []) = (None, data, (w1, evs1))"
      "T (getReq (Shipment s) (Auth s)) w1 = (res, w2)"
      "harborKeysOf (Shipment s) res = Inl e"
      "err = Some e" "w' = (w2, snd w @ evs1 @ [Http (getReq (Shipment s) (Auth s)) res])" "vers = False"
  | w1 evs1 res w2 hk w3 evs3 where
      "pushLoop T evt (Data file) (buildURL (Shipment s)) (Auth s)
         (goRange rng (localKeysOf parse now fileData)) (coordinates s) (fst w, []) = (None, data, (w1, evs1))"
      "T (getReq (Shipment s) (Auth s)) w1 = (res, w2)"
      "harborKeysOf (Shipment s) res = Inr hk"
      "pushDeleteLoop T (Data file) (localKeysOf parse now fileData) (buildURL (Shipment s)) (Auth s)
         (map fst (goRange rng hk)) (w2, []) = (err, (w3, evs3))"
      "w' = (w3, snd w @ evs1 @ Http (getReq (Shipment s) (Auth s)) res # evs3)" "vers = False"
proof -
  let ?url = "buildURL (Shipment s)"
  let ?lk = "localKeysOf parse now fileData"
  obtain e1 d1 w1 evs1 where l1: "pushLoop T evt (Data file) ?url (Auth s) (goRange rng ?lk) (coordinates s) (fst w, []) = (e1, d1, (w1, evs1))"
    by (metis prod.collapse)
  have l1': "pushLoop T evt (Data file) ?url (Auth s) (goRange rng ?lk) (coordinates s) w = (e1, d1, (w1, snd w @ evs1))"
    using pushLoop_shift [of T evt "Data file" ?url "Auth s" "goRange rng ?lk" "coordinates s" "fst w" "snd w"] l1
    by simp
  obtain res w2 where g: "T (getReq (Shipment s) (Auth s)) w1 = (res, w2)"
    by (cases "T (getReq (Shipment s) (Auth s)) w1")
  have g': "getHarborKeys T (Shipment s) (Auth s) (w1, snd w @ evs1)
      = (harborKeysOf (Shipment s) res, (w2, snd w @ evs1 @ [Http (getReq (Shipment s) (Auth s)) res]))"
    by (simp add: getHarborKeys_eq g)
  note P = run [unfolded Push_def Let_def, folded localKeysOf_def coordinates_def, unfolded l1']
  show ?thesis
  proof (cases e1)
    case (Some e)
    with P have "err = Some e" "w' = (w1, snd w @ evs1)" "vers = False" "data = d1" by simp_all
    with l1 Some that(1) show ?thesis by blast
  next
    case None
    note P2 = P [unfolded None, simplified, unfolded g']
    show ?thesis
    proof (cases "harborKeysOf (Shipment s) res")
      case (Inl e)
      with P2 have "err = Some e" "w' = (w2, snd w @ evs1 @ [Http (getReq (Shipment s) (Auth s)) res])"
          "vers = False" "data = d1" by simp_all
      with l1 None g Inl that(2) show ?thesis by blast
    next
      case (Inr hk)
      obtain e3 w3 evs3 where l3: "pushDeleteLoop T (Data file) ?lk ?url (Auth s) (map fst (goRange rng hk)) (w2, []) = (e3, (w3, evs3))"
        by (metis prod.collapse)
      have l3': "pushDeleteLoop T (Data file) ?lk ?url (Auth s) (map fst (goRange rng hk))
                   (w2, snd w @ evs1 @ [Http (getReq (Shipment s) (Auth s)) res])
                 = (e3, (w3, snd w @ evs1 @ Http (getReq (Shipment s) (Auth s)) res # evs3))"
        using pushDeleteLoop_shift [of T "Data file" ?lk ?url "Auth s" "map fst (goRange rng hk)" w2
            "snd w @ evs1 @ [Http (getReq (Shipment s) (Auth s)) res]"] l3
        by simp
      from P2 Inr l3' have "err = e3" "w' = (w3, snd w @ evs1 @ Http (getReq (Shipment s) (Auth s)) res # evs3)"
          "vers = False" "data = d1"
        by (auto split: option.splits)
      with l1 None g Inr l3 that(3) show ?thesis by blast
    qed
  qed
qed

lemma localKeysOf_distinct:
  "distinct (map fst (parse fileData)) \<Longrightarrow> distinct (map fst (localKeysOf parse now fileData))"
  by (simp add: localKeysOf_def distinct_update)

lemma deleteRequests_append: "deleteRequests (evs @ evs') = deleteRequests evs @ deleteRequests evs'"
  by (induction evs rule: deleteRequests.induct) simp_all

lemma deleted_append: "deleted (evs @ evs') = deleted evs @ deleted evs'"
  by (induction evs rule: deleted.induct) simp_all

lemma upserts_no_delete:
  "\<forall>ev\<in>set evs. isUpsert ev \<Longrightarrow> deleteRequests evs = [] \<and> deleted evs = []"
  by (induction evs rule: deleteRequests.induct) auto

lemma pushLoop_isUpsert:
  assumes "pushLoop T evt fd url auth kvs data (w0, []) = (e, d, (w', evs))"
  shows "\<forall>ev\<in>set evs. isUpsert ev"
  using pushLoop_events [OF assms] by fastforce

lemma pushDeleteLoop_no_upsert:
  assumes "pushDeleteLoop T fd lk url auth ks (w0, []) = (e, (w', evs))"
  shows "\<forall>ev\<in>set evs. \<not> isUpsert ev"
  using pushDeleteLoop_events [OF assms] by fastforce

lemma Push_exchanges:
  assumes ord: "order_ok rng"
    and dl: "distinct (map fst (gotenv_Parse fileData))"
    and run: "Push T rng envVarType gotenv_Parse nowString s contextKey file fileData w = ((data, vers, err), w')"
  shows "\<exists>evs. snd w' = snd w @ evs
     \<and> (\<forall>r res. Http r res \<in> set evs \<longrightarrow>
            r = getReq (Shipment s) (Auth s)
          \<or> (\<exists>k v. map_of (localKeysOf gotenv_Parse nowString fileData) k = Some v
                \<and> (r = createReq (pushPair envVarType (Data file) k v) (buildURL (Shipment s)) (Auth s)
                   \<or> r = updateReq (pushPair envVarType (Data file) k v) (buildURL (Shipment s)) (Auth s)))
          \<or> (\<exists>k. map_of (Data file) (addEnvVarPrefix k) \<noteq> None
                \<and> map_of (localKeysOf gotenv_Parse nowString fileData) k = None
                \<and> r = deleteReq k (buildURL (Shipment s)) (Auth s)))
     \<and> (err = None \<longrightarrow>
          (\<forall>k v. map_of (localKeysOf gotenv_Parse nowString fileData) k = Some v \<longrightarrow>
              upserted evs (pushPair envVarType (Data file) k v) (buildURL (Shipment s)) (Auth s)))"
proof -
  let ?lk = "localKeysOf gotenv_Parse nowString fileData"
  let ?url = "buildURL (Shipment s)"
  let ?get = "getReq (Shipment s) (Auth s)"
  let ?U = "\<lambda>r. \<exists>k v. map_of ?lk k = Some v
                \<and> (r = createReq (pushPair envVarType (Data file) k v) ?url (Auth s)
                   \<or> r = updateReq (pushPair envVarType (Data file) k v) ?url (Auth s))"
  let ?ok = "\<lambda>r. r = ?get \<or> ?U r \<or> (\<exists>k. map_of (Data file) (addEnvVarPrefix k) \<noteq> None \<and> map_of ?lk k = None
                    \<and> r = deleteReq k ?url (Auth s))"
  have dlk: "distinct (map fst ?lk)"
    using dl by (rule localKeysOf_distinct)
  have up: "?U r" if l: "pushLoop T envVarType (Data file) ?url (Auth s) (goRange rng ?lk) d0 (w0, []) = (e, d, (w1, evs1))"
    and r: "Http r res \<in> set evs1" for d0 w0 e d w1 evs1 r res
  proof -
    from pushLoop_events [OF l] r obtain kv res' where kv: "kv \<in> set (goRange rng ?lk)"
      and "Http r res = Http (createReq (pushPair envVarType (Data file) (fst kv) (snd kv)) ?url (Auth s)) res'
         \<or> Http r res = Http (updateReq (pushPair envVarType (Data file) (fst kv) (snd kv)) ?url (Auth s)) res'"
      by blast
    then have "r = createReq (pushPair envVarType (Data file) (fst kv) (snd kv)) ?url (Auth s)
         \<or> r = updateReq (pushPair envVarType (Data file) (fst kv) (snd kv)) ?url (Auth s)"
      by auto
    moreover have "map_of ?lk (fst kv) = Some (snd kv)"
      using kv goRange_lookup [of "fst kv" "snd kv" rng ?lk] by simp
    ultimately show ?thesis by blast
  qed
  from run show ?thesis
  proof (cases rule: Push_run)
    case (UpsertFailed e w1 evs1)
    have "\<forall>r res. Http r res \<in> set evs1 \<longrightarrow> ?ok r"
      using up [OF UpsertFailed(1)] by blast
    with UpsertFailed(2,3) show ?thesis
      by (intro exI [of _ evs1]) simp
  next
    case (FetchFailed w1 evs1 res w2 e)
    have "\<forall>r res'. Http r res' \<in> set (evs1 @ [Http ?get res]) \<longrightarrow> ?ok r"
      using up [OF FetchFailed(1)] by auto
    with FetchFailed(4,5) show ?thesis
      by (intro exI [of _ "evs1 @ [Http ?get res]"]) simp
  next
    case (Fetched w1 evs1 res w2 hk w3 evs3)
    let ?evs = "evs1 @ Http ?get res # evs3"
    have del: "\<exists>k. map_of (Data file) (addEnvVarPrefix k) \<noteq> None \<and> map_of ?lk k = None
                    \<and> r = deleteReq k ?url (Auth s)" if "Http r res' \<in> set evs3" for r res'
      using pushDeleteLoop_events [OF Fetched(4)] that by fastforce
    have 1: "\<forall>r res'. Http r res' \<in> set ?evs \<longrightarrow> ?ok r"
      using up [OF Fetched(1)] del by auto
    have 2: "err = None \<longrightarrow>
          (\<forall>k v. map_of ?lk k = Some v \<longrightarrow> upserted ?evs (pushPair envVarType (Data file) k v) ?url (Auth s))"
    proof (intro impI allI)
      fix k v assume "map_of ?lk k = Some v"
      then have "(k, v) \<in> set (goRange rng ?lk)"
        using goRange_set [OF ord dlk] by (simp add: map_of_SomeD)
      with pushLoop_success [OF Fetched(1)]
      have "upserted evs1 (pushPair envVarType (Data file) k v) ?url (Auth s)" by fastforce
      then show "upserted ?evs (pushPair envVarType (Data file) k v) ?url (Auth s)"
        by (simp add: upserted_append)
    qed
    from Fetched(5) have 0: "snd w' = snd w @ ?evs" by simp
    from 0 1 2 show ?thesis
      by (intro exI [of _ ?evs] conjI)
  qed
qed

text \<open>
  Claim C1. Take a run of Push, with any iteration order of the Go maps, and let \<open>evs\<close>
  be what it appends to the log. Every request of the run is the fetch of the remote
  keys, a create or an update of a local key (a key of the parsed file, or the
  sentinel), or the deletion of a key that has a prefixed entry in the old
  \<^verbatim>\<open>file.Data\<close> and is not local: a key that is neither local nor owned is never
  created, updated or deleted. When Push returns no error, every local key was written
  (a create answered 201 or an update answered 200), and the DELETE requests of the
  run, all answered 200, are one for each key of the fetched remote key set that has a
  prefixed entry in the old \<^verbatim>\<open>file.Data\<close> and is not local, and no other.
\<close>

theorem Push_reconciles:
  assumes ord: "order_ok rng"
    and dl: "distinct (map fst (gotenv_Parse fileData))"
    and run: "Push T rng envVarType gotenv_Parse nowString s contextKey file fileData w = ((data, vers, err), w')"
  shows "\<exists>evs. snd w' = snd w @ evs
     \<and> (\<forall>r res. Http r res \<in> set evs \<longrightarrow>
            r = getReq (Shipment s) (Auth s)
          \<or> (\<exists>k v. map_of (localKeysOf gotenv_Parse nowString fileData) k = Some v
                \<and> (r = createReq (pushPair envVarType (Data file) k v) (buildURL (Shipment s)) (Auth s)
                   \<or> r = updateReq (pushPair envVarType (Data file) k v) (buildURL (Shipment s)) (Auth s)))
          \<or> (\<exists>k. map_of (Data file) (addEnvVarPrefix k) \<noteq> None
                \<and> map_of (localKeysOf gotenv_Parse nowString fileData) k = None
                \<and> r = deleteReq k (buildURL (Shipment s)) (Auth s)))
     \<and> (err = None \<longrightarrow>
          (\<forall>k v. map_of (localKeysOf gotenv_Parse nowString fileData) k = Some v \<longrightarrow>
              upserted evs (pushPair envVarType (Data file) k v) (buildURL (Shipment s)) (Auth s))
        \<and> (\<exists>res hk ds. Http (getReq (Shipment s) (Auth s)) res \<in> set evs
              \<and> harborKeysOf (Shipment s) res = Inr hk
              \<and> distinct ds
              \<and> set ds = {k \<in> fst ` set hk. map_of (Data file) (addEnvVarPrefix k) \<noteq> None
                              \<and> map_of (localKeysOf gotenv_Parse nowString fileData) k = None}
              \<and> deleteRequests evs = map (\<lambda>k. deleteReq k (buildURL (Shipment s)) (Auth s)) ds
              \<and> deleted evs = deleteRequests evs))"
proof -
  let ?lk = "localKeysOf gotenv_Parse nowString fileData"
  let ?url = "buildURL (Shipment s)"
  let ?get = "getReq (Shipment s) (Auth s)"
  let ?D = "\<lambda>k. map_of (Data file) (addEnvVarPrefix k) \<noteq> None \<and> map_of ?lk k = None"
  from Push_exchanges [OF ord dl run] obtain evs where log: "snd w' = snd w @ evs"
    and ex: "\<forall>r res. Http r res \<in> set evs \<longrightarrow>
            r = ?get
          \<or> (\<exists>k v. map_of ?lk k = Some v
                \<and> (r = createReq (pushPair envVarType (Data file) k v) ?url (Auth s)
                   \<or> r = updateReq (pushPair envVarType (Data file) k v) ?url (Auth s)))
          \<or> (\<exists>k. map_of (Data file) (addEnvVarPrefix k) \<noteq> None \<and> map_of ?lk k = None
                \<and> r = deleteReq k ?url (Auth s))"
    and wr: "err = None \<longrightarrow>
          (\<forall>k v. map_of ?lk k = Some v \<longrightarrow> upserted evs (pushPair envVarType (Data file) k v) ?url (Auth s))"
    by (elim exE conjE)
  have del: "\<exists>res hk ds. Http ?get res \<in> set evs \<and> harborKeysOf (Shipment s) res = Inr hk
              \<and> distinct ds \<and> set ds = {k \<in> fst ` set hk. ?D k}
              \<and> deleteRequests evs = map (\<lambda>k. deleteReq k ?url (Auth s)) ds
              \<and> deleted evs = deleteRequests evs" if ok: "err = None"
    using run
  proof (cases rule: Push_run)
    case (UpsertFailed e w1 evs1)
    with ok show ?thesis by simp
  next
    case (FetchFailed w1 evs1 res w2 e)
    with ok show ?thesis by simp
  next
    case (Fetched w1 evs1 res w2 hk w3 evs3)
    let ?ds = "filter ?D (map fst (goRange rng hk))"
    have evs: "evs = evs1 @ Http ?get res # evs3"
      using log Fetched(5) by simp
    have dhk: "distinct (map fst hk)"
      using Fetched(3) by (rule harborKeysOf_distinct)
    have keys: "map fst (goRange rng hk) = rng (map fst hk)"
      using ord dhk by (rule goRange_keys)
    have dr: "distinct (rng (map fst hk))" and sr: "set (rng (map fst hk)) = fst ` set hk"
      using ord dhk by (simp_all add: order_ok_def)
    have nd: "deleteRequests evs1 = []" "deleted evs1 = []"
      using upserts_no_delete [OF pushLoop_isUpsert [OF Fetched(1)]] by simp_all
    from pushDeleteLoop_success [OF Fetched(4)] ok
    have d3: "deleted evs3 = map (\<lambda>k. deleteReq k ?url (Auth s)) ?ds" "deleteRequests evs3 = deleted evs3"
      by simp_all
    have b: "deleteRequests evs = map (\<lambda>k. deleteReq k ?url (Auth s)) ?ds" "deleted evs = deleteRequests evs"
      using d3 nd by (simp_all add: evs deleteRequests_append deleted_append)
    have c: "distinct ?ds" "set ?ds = {k \<in> fst ` set hk. ?D k}"
      using dr sr by (auto simp: keys)
    have "Http ?get res \<in> set evs" by (simp add: evs)
    with Fetched(3) b c show ?thesis by blast
  qed
  from log ex wr del show ?thesis
    by (intro exI [of _ evs] conjI impI) auto
qed

lemma keyTypeFor_classification:
  "keyTypeFor evt fd (addEnvVarPrefix k) = classification evt fd k"
  by (simp add: keyTypeFor_def classification_def envTypeHidden_def split: option.splits)

lemma pushPair_classification:
  "pushPair evt fd k v = \<lparr>p_Name = k, p_Value = v, p_Type = classification evt fd k\<rparr>"
  by (simp add: pushPair_def keyTypeFor_classification)

lemma wrote_isUpsert: "wrote p url auth ev \<Longrightarrow> isUpsert ev"
  by (cases ev) (auto simp: wrote.simps)

lemma no_upsert_not_upserted: "\<forall>ev\<in>set evs. \<not> isUpsert ev \<Longrightarrow> \<not> upserted evs p url auth"
  by (auto simp: upserted_def dest: wrote_isUpsert)

lemma ReqBody_simps [simp]:
  "ReqBody (createReq p url auth) = JSONPair p" "ReqBody (updateReq p url auth) = JSONPair p"
  "ReqBody (deleteReq k url auth) = NoBody" "ReqBody (getReq sh auth) = NoBody"
  by (simp_all add: createReq_def updateReq_def deleteReq_def getReq_def)

lemma foldl_record_lookup:
  "map_of (foldl (\<lambda>d kv. AList.update (f kv) (g (f kv)) d) d0 xs) x
     = (if x \<in> f ` set xs then Some (g x) else map_of d0 x)"
  by (induction xs arbitrary: d0) (auto simp: update_conv')

lemma prefix_not_token:
  "addEnvVarPrefix k \<noteq> shipmentToken" "addEnvVarPrefix k \<noteq> containerToken" "addEnvVarPrefix k \<noteq> envToken"
  by (simp_all add: addEnvVarPrefix_def shipmentToken_def containerToken_def envToken_def)

lemma addEnvVarPrefix_inj [simp]: "addEnvVarPrefix k = addEnvVarPrefix k' \<longleftrightarrow> k = k'"
  by (simp add: addEnvVarPrefix_def)

text \<open>The metadata map of a Push, read off the log of its upsert pass.\<close>

lemma Push_data:
  assumes ord: "order_ok rng"
    and dl: "distinct (map fst (gotenv_Parse fileData))"
    and run: "Push T rng envVarType gotenv_Parse nowString s contextKey file fileData w = ((data, vers, err), w')"
  shows "\<exists>evs. snd w' = snd w @ evs
     \<and> (\<forall>x. map_of data x =
          (if \<exists>k v. x = addEnvVarPrefix k \<and> map_of (localKeysOf gotenv_Parse nowString fileData) k = Some v
                \<and> upserted evs (pushPair envVarType (Data file) k v) (buildURL (Shipment s)) (Auth s)
           then Some (keyTypeFor envVarType (Data file) x) else map_of (coordinates s) x))"
proof -
  let ?lk = "localKeysOf gotenv_Parse nowString fileData"
  let ?url = "buildURL (Shipment s)"
  let ?up = "\<lambda>evs kv. upserted evs (pushPair envVarType (Data file) (fst kv) (snd kv)) ?url (Auth s)"
  have dlk: "distinct (map fst ?lk)"
    using dl by (rule localKeysOf_distinct)
  have dg: "distinct (map fst (goRange rng ?lk))"
    using ord dlk by (rule goRange_distinct)
  have sg: "set (goRange rng ?lk) = set ?lk"
    using ord dlk by (rule goRange_set)
  have core: "\<forall>x. map_of data x =
          (if \<exists>k v. x = addEnvVarPrefix k \<and> map_of ?lk k = Some v
                \<and> upserted (evs1 @ evs2) (pushPair envVarType (Data file) k v) ?url (Auth s)
           then Some (keyTypeFor envVarType (Data file) x) else map_of (coordinates s) x)"
    if l: "pushLoop T envVarType (Data file) ?url (Auth s) (goRange rng ?lk) (coordinates s) (fst w, []) = (e, data, (w1, evs1))"
      and n: "\<forall>ev\<in>set evs2. \<not> isUpsert ev" for e w1 evs1 evs2
  proof
    fix x
    have up: "upserted (evs1 @ evs2) p ?url (Auth s) \<longleftrightarrow> upserted evs1 p ?url (Auth s)" for p
      using no_upsert_not_upserted [OF n] by (simp add: upserted_append)
    from pushLoop_data [OF l] dg
    have d: "data = foldl (\<lambda>d kv. AList.update (addEnvVarPrefix (fst kv)) (keyTypeFor envVarType (Data file) (addEnvVarPrefix (fst kv))) d)
               (coordinates s) (filter (?up evs1) (goRange rng ?lk))"
      by simp
    have "x \<in> (\<lambda>kv. addEnvVarPrefix (fst kv)) ` set (filter (?up evs1) (goRange rng ?lk))
        \<longleftrightarrow> (\<exists>k v. x = addEnvVarPrefix k \<and> map_of ?lk k = Some v
                \<and> upserted evs1 (pushPair envVarType (Data file) k v) ?url (Auth s))"
      using dlk by (auto simp: sg image_iff)
    then show "map_of data x =
          (if \<exists>k v. x = addEnvVarPrefix k \<and> map_of ?lk k = Some v
                \<and> upserted (evs1 @ evs2) (pushPair envVarType (Data file) k v) ?url (Auth s)
           then Some (keyTypeFor envVarType (Data file) x) else map_of (coordinates s) x)"
      unfolding up d foldl_record_lookup [of "\<lambda>kv. addEnvVarPrefix (fst kv)" "keyTypeFor envVarType (Data file)"]
      by simp
  qed
  from run show ?thesis
  proof (cases rule: Push_run)
    case (UpsertFailed e w1 evs1)
    from core [OF UpsertFailed(1), of "[]"] UpsertFailed(3) show ?thesis
      by (intro exI [of _ evs1]) simp
  next
    case (FetchFailed w1 evs1 res w2 e)
    have "\<forall>ev\<in>set [Http (getReq (Shipment s) (Auth s)) res]. \<not> isUpsert ev" by simp
    from core [OF FetchFailed(1) this] FetchFailed(5) show ?thesis
      by (intro exI [of _ "evs1 @ [Http (getReq (Shipment s) (Auth s)) res]"]) simp
  next
    case (Fetched w1 evs1 res w2 hk w3 evs3)
    have "\<forall>ev\<in>set (Http (getReq (Shipment s) (Auth s)) res # evs3). \<not> isUpsert ev"
      using pushDeleteLoop_no_upsert [OF Fetched(4)] by simp
    from core [OF Fetched(1) this] Fetched(5) show ?thesis
      by (intro exI [of _ "evs1 @ Http (getReq (Shipment s) (Auth s)) res # evs3"]) simp
  qed
qed


text \<open>
  Claim C2. In a run of Push, every pair sent to the remote store is a local key with
  its value and with the classification of the specification as its type: the one
  recorded in the old \<^verbatim>\<open>file.Data\<close> under the prefixed key when it differs from the
  generic marker, otherwise "hidden". Once the pair of a local key is written, the
  returned metadata maps its prefixed key to that classification, and the returned
  metadata never maps a prefixed key to anything else. When Push returns no error,
  this holds of every local key.
\<close>

theorem Push_classifies:
  assumes ord: "order_ok rng"
    and dl: "distinct (map fst (gotenv_Parse fileData))"
    and run: "Push T rng envVarType gotenv_Parse nowString s contextKey file fileData w = ((data, vers, err), w')"
  shows "\<exists>evs. snd w' = snd w @ evs
     \<and> (\<forall>r res p. Http r res \<in> set evs \<and> ReqBody r = JSONPair p \<longrightarrow>
            map_of (localKeysOf gotenv_Parse nowString fileData) (p_Name p) = Some (p_Value p)
          \<and> p_Type p = classification envVarType (Data file) (p_Name p))
     \<and> (\<forall>k v. map_of (localKeysOf gotenv_Parse nowString fileData) k = Some v
              \<and> upserted evs \<lparr>p_Name = k, p_Value = v, p_Type = classification envVarType (Data file) k\<rparr>
                    (buildURL (Shipment s)) (Auth s) \<longrightarrow>
            map_of data (addEnvVarPrefix k) = Some (classification envVarType (Data file) k))
     \<and> (\<forall>k c. map_of data (addEnvVarPrefix k) = Some c \<longrightarrow> c = classification envVarType (Data file) k)
     \<and> (err = None \<longrightarrow>
          (\<forall>k v. map_of (localKeysOf gotenv_Parse nowString fileData) k = Some v \<longrightarrow>
              upserted evs \<lparr>p_Name = k, p_Value = v, p_Type = classification envVarType (Data file) k\<rparr>
                    (buildURL (Shipment s)) (Auth s)
            \<and> map_of data (addEnvVarPrefix k) = Some (classification envVarType (Data file) k)))"
proof -
  let ?lk = "localKeysOf gotenv_Parse nowString fileData"
  let ?url = "buildURL (Shipment s)"
  from Push_data [OF ord dl run] obtain evs where log: "snd w' = snd w @ evs"
    and d: "\<And>x. map_of data x =
          (if \<exists>k v. x = addEnvVarPrefix k \<and> map_of ?lk k = Some v
                \<and> upserted evs (pushPair envVarType (Data file) k v) ?url (Auth s)
           then Some (keyTypeFor envVarType (Data file) x) else map_of (coordinates s) x)"
    by blast
  from Push_exchanges [OF ord dl run] log
  have ev: "\<forall>r res. Http r res \<in> set evs \<longrightarrow>
            r = getReq (Shipment s) (Auth s)
          \<or> (\<exists>k v. map_of ?lk k = Some v
                \<and> (r = createReq (pushPair envVarType (Data file) k v) ?url (Auth s)
                   \<or> r = updateReq (pushPair envVarType (Data file) k v) ?url (Auth s)))
          \<or> (\<exists>k. map_of (Data file) (addEnvVarPrefix k) \<noteq> None \<and> map_of ?lk k = None
                \<and> r = deleteReq k ?url (Auth s))"
    and ok: "err = None \<longrightarrow> (\<forall>k v. map_of ?lk k = Some v \<longrightarrow>
              upserted evs (pushPair envVarType (Data file) k v) ?url (Auth s))"
    by auto
  have 1: "\<forall>r res p. Http r res \<in> set evs \<and> ReqBody r = JSONPair p \<longrightarrow>
            map_of ?lk (p_Name p) = Some (p_Value p) \<and> p_Type p = classification envVarType (Data file) (p_Name p)"
  proof (intro allI impI)
    fix r res p assume a: "Http r res \<in> set evs \<and> ReqBody r = JSONPair p"
    with ev have "r = getReq (Shipment s) (Auth s)
          \<or> (\<exists>k v. map_of ?lk k = Some v
                \<and> (r = createReq (pushPair envVarType (Data file) k v) ?url (Auth s)
                   \<or> r = updateReq (pushPair envVarType (Data file) k v) ?url (Auth s)))
          \<or> (\<exists>k. map_of (Data file) (addEnvVarPrefix k) \<noteq> None \<and> map_of ?lk k = None
                \<and> r = deleteReq k ?url (Auth s))"
      by blast
    with a obtain k v where "map_of ?lk k = Some v" "p = pushPair envVarType (Data file) k v"
      by auto
    then show "map_of ?lk (p_Name p) = Some (p_Value p) \<and> p_Type p = classification envVarType (Data file) (p_Name p)"
      by (simp add: keyTypeFor_classification)
  qed
  have 2: "\<forall>k v. map_of ?lk k = Some v
              \<and> upserted evs \<lparr>p_Name = k, p_Value = v, p_Type = classification envVarType (Data file) k\<rparr> ?url (Auth s) \<longrightarrow>
            map_of data (addEnvVarPrefix k) = Some (classification envVarType (Data file) k)"
    by (auto simp: d keyTypeFor_classification pushPair_classification)
  have 3: "\<forall>k c. map_of data (addEnvVarPrefix k) = Some c \<longrightarrow> c = classification envVarType (Data file) k"
    by (auto simp: d keyTypeFor_classification coordinates_def prefix_not_token split: if_splits)
  have 4: "err = None \<longrightarrow>
          (\<forall>k v. map_of ?lk k = Some v \<longrightarrow>
              upserted evs \<lparr>p_Name = k, p_Value = v, p_Type = classification envVarType (Data file) k\<rparr> ?url (Auth s)
            \<and> map_of data (addEnvVarPrefix k) = Some (classification envVarType (Data file) k))"
    using ok 2 by (simp add: pushPair_classification)
  from log 1 2 3 4 show ?thesis by blast
qed


section \<open>The examples, evaluated\<close>

lemmas push_simps = Push_def createKey_eq updateKey_eq deleteKey_eq getHarborKeys_eq harborKeysOf_def
  keyTypeFor_def Printf_def goRange_def List.map_filter_simps statusError_def answered_def Let_def
lemmas run_defs = exEnv_def exEnvFoo_def exNow_def exOwned_def exRemoteABC_def rejecting_def

lemma exPush_result:
  "fst exPush = ([(''HARBOR_SHIPMENT'', ''app''), (''HARBOR_CONTAINER'', ''web''), (''HARBOR_ENV'', ''dev''),
      (''ENV_a'', ''hidden''), (''ENV_b'', ''discover''), (''ENV_CSTORE_MODIFIED'', ''hidden'')], False, None)"
  by (simp add: exPush_def run_defs push_simps ex_defs const_defs req_defs server_defs)

lemma exPush_remote:
  "fst (snd exPush) = [(''a'', \<lparr>hk_value = ''1'', hk_vType = ''hidden''\<rparr>),
                       (''b'', \<lparr>hk_value = ''2'', hk_vType = ''discover''\<rparr>),
                       (''z'', exKey ''9''),
                       (''CSTORE_MODIFIED'', \<lparr>hk_value = exNow, hk_vType = ''hidden''\<rparr>)]"
  by (simp add: exPush_def run_defs push_simps ex_defs const_defs req_defs server_defs)

lemma exPush_deleted:
  "deleted (snd (snd exPush)) = [deleteReq ''c'' (buildURL exShipment) (Auth exStore)]"
  by (simp add: exPush_def run_defs push_simps ex_defs const_defs req_defs server_defs)

lemma exPush_run:
  "Push (simServer ''web'') inOrder ''ENV'' exEnv exNow exStore ''ctx'' exOwned ''a=1 b=2''
        (exRemoteABC, [])
      = (([(''HARBOR_SHIPMENT'', ''app''), (''HARBOR_CONTAINER'', ''web''), (''HARBOR_ENV'', ''dev''),
      (''ENV_a'', ''hidden''), (''ENV_b'', ''discover''), (''ENV_CSTORE_MODIFIED'', ''hidden'')], False, (None::error option)), snd exPush)"
  using exPush_result by (simp add: exPush_def [symmetric] prod_eq_iff)





lemma exPushFoo_result:
  "fst exPushFoo = ([(''HARBOR_SHIPMENT'', ''app''), (''HARBOR_CONTAINER'', ''web''), (''HARBOR_ENV'', ''dev''),
      (''ENV_FOO'', ''hidden''), (''ENV_CSTORE_MODIFIED'', ''hidden'')], False, None)"
  by (simp add: exPushFoo_def run_defs push_simps ex_defs const_defs req_defs server_defs)

lemma exPushFoo_remote:
  "fst (snd exPushFoo) = [(''FOO'', \<lparr>hk_value = ''bar'', hk_vType = ''hidden''\<rparr>),
                          (''CSTORE_MODIFIED'', \<lparr>hk_value = exNow, hk_vType = ''hidden''\<rparr>)]"
  by (simp add: exPushFoo_def run_defs push_simps ex_defs const_defs req_defs server_defs)

lemma exPushFoo_run:
  "Push (simServer ''web'') inOrder ''ENV'' exEnvFoo exNow exStore ''ctx'' (exFile []) ''FOO=bar''
        ([]::(string, harborKey) gomap, [])
      = (([(''HARBOR_SHIPMENT'', ''app''), (''HARBOR_CONTAINER'', ''web''), (''HARBOR_ENV'', ''dev''),
      (''ENV_FOO'', ''hidden''), (''ENV_CSTORE_MODIFIED'', ''hidden'')], False, (None::error option)), snd exPushFoo)"
  using exPushFoo_result by (simp add: exPushFoo_def [symmetric] prod_eq_iff)

text \<open>
  The scenario of the specification, run against the key-value server: the local keys
  are \<^verbatim>\<open>a\<close> and \<^verbatim>\<open>b\<close>, the file owned \<^verbatim>\<open>a\<close>, \<^verbatim>\<open>b\<close> and \<^verbatim>\<open>c\<close>, and the remote store
  also holds \<^verbatim>\<open>z\<close>, which the file never owned. Push writes \<^verbatim>\<open>a\<close>, \<^verbatim>\<open>b\<close> and the
  sentinel, deletes \<^verbatim>\<open>c\<close> and nothing else, and leaves \<^verbatim>\<open>z\<close> as it was.
\<close>

theorem Push_reconciles_witness:
  "order_ok inOrder
   \<and> distinct (map fst (exEnv ''a=1 b=2''))
   \<and> fst exPush = ([(''HARBOR_SHIPMENT'', ''app''), (''HARBOR_CONTAINER'', ''web''), (''HARBOR_ENV'', ''dev''),
      (''ENV_a'', ''hidden''), (''ENV_b'', ''discover''), (''ENV_CSTORE_MODIFIED'', ''hidden'')], False, None)
   \<and> fst (snd exPush) = [(''a'', \<lparr>hk_value = ''1'', hk_vType = ''hidden''\<rparr>),
        (''b'', \<lparr>hk_value = ''2'', hk_vType = ''discover''\<rparr>),
        (''z'', exKey ''9''),
        (''CSTORE_MODIFIED'', \<lparr>hk_value = exNow, hk_vType = ''hidden''\<rparr>)]
   \<and> deleted (snd (snd exPush)) = [deleteReq ''c'' (buildURL exShipment) (Auth exStore)]
   \<and> (\<exists>evs. snd (snd exPush) = snd (exRemoteABC, []) @ evs
     \<and> (\<forall>r res. Http r res \<in> set evs \<longrightarrow>
            r = getReq (Shipment exStore) (Auth exStore)
          \<or> (\<exists>k v. map_of (localKeysOf exEnv exNow ''a=1 b=2'') k = Some v
                \<and> (r = createReq (pushPair ''ENV'' (Data exOwned) k v) (buildURL (Shipment exStore)) (Auth exStore)
                   \<or> r = updateReq (pushPair ''ENV'' (Data exOwned) k v) (buildURL (Shipment exStore)) (Auth exStore)))
          \<or> (\<exists>k. map_of (Data exOwned) (addEnvVarPrefix k) \<noteq> None
                \<and> map_of (localKeysOf exEnv exNow ''a=1 b=2'') k = None
                \<and> r = deleteReq k (buildURL (Shipment exStore)) (Auth exStore)))
     \<and> ((None::error option) = None \<longrightarrow>
          (\<forall>k v. map_of (localKeysOf exEnv exNow ''a=1 b=2'') k = Some v \<longrightarrow>
              upserted evs (pushPair ''ENV'' (Data exOwned) k v) (buildURL (Shipment exStore)) (Auth exStore))
        \<and> (\<exists>res hk ds. Http (getReq (Shipment exStore) (Auth exStore)) res \<in> set evs
              \<and> harborKeysOf (Shipment exStore) res = Inr hk
              \<and> distinct ds
              \<and> set ds = {k \<in> fst ` set hk. map_of (Data exOwned) (addEnvVarPrefix k) \<noteq> None
                              \<and> map_of (localKeysOf exEnv exNow ''a=1 b=2'') k = None}
              \<and> deleteRequests evs = map (\<lambda>k. deleteReq k (buildURL (Shipment exStore)) (Auth exStore)) ds
              \<and> deleted evs = deleteRequests evs)))"
proof -
  have d: "distinct (map fst (exEnv ''a=1 b=2''))"
    by (simp add: exEnv_def)
  note th = Push_reconciles [OF order_ok_inOrder d exPush_run]
  show ?thesis
    using order_ok_inOrder d exPush_result exPush_remote exPush_deleted th by (intro conjI)
qed

text \<open>
  The scenario of the specification: the local file holds \<^verbatim>\<open>FOO=bar\<close> and
  \<^verbatim>\<open>file.Data\<close> has no entry for it. The metadata Push returns maps \<^verbatim>\<open>ENV_FOO\<close> to
  "hidden", and the remote store holds \<^verbatim>\<open>FOO\<close> with the value \<^verbatim>\<open>bar\<close> and the type
  "hidden".
\<close>

theorem Push_classifies_witness:
  "order_ok inOrder
   \<and> distinct (map fst (exEnvFoo ''FOO=bar''))
   \<and> fst exPushFoo = ([(''HARBOR_SHIPMENT'', ''app''), (''HARBOR_CONTAINER'', ''web''), (''HARBOR_ENV'', ''dev''),
      (''ENV_FOO'', ''hidden''), (''ENV_CSTORE_MODIFIED'', ''hidden'')], False, None)
   \<and> fst (snd exPushFoo) = [(''FOO'', \<lparr>hk_value = ''bar'', hk_vType = ''hidden''\<rparr>),
        (''CSTORE_MODIFIED'', \<lparr>hk_value = exNow, hk_vType = ''hidden''\<rparr>)]
   \<and> (\<exists>evs. snd (snd exPushFoo) = snd ([]::(string, harborKey) gomap, []) @ evs
     \<and> (\<forall>r res p. Http r res \<in> set evs \<and> ReqBody r = JSONPair p \<longrightarrow>
            map_of (localKeysOf exEnvFoo exNow ''FOO=bar'') (p_Name p) = Some (p_Value p)
          \<and> p_Type p = classification ''ENV'' (Data (exFile [])) (p_Name p))
     \<and> (\<forall>k v. map_of (localKeysOf exEnvFoo exNow ''FOO=bar'') k = Some v
              \<and> upserted evs \<lparr>p_Name = k, p_Value = v, p_Type = classification ''ENV'' (Data (exFile [])) k\<rparr>
                    (buildURL (Shipment exStore)) (Auth exStore) \<longrightarrow>
            map_of [(''HARBOR_SHIPMENT'', ''app''), (''HARBOR_CONTAINER'', ''web''), (''HARBOR_ENV'', ''dev''),
      (''ENV_FOO'', ''hidden''), (''ENV_CSTORE_MODIFIED'', ''hidden'')] (addEnvVarPrefix k) = Some (classification ''ENV'' (Data (exFile [])) k))
     \<and> (\<forall>k c. map_of [(''HARBOR_SHIPMENT'', ''app''), (''HARBOR_CONTAINER'', ''web''), (''HARBOR_ENV'', ''dev''),
      (''ENV_FOO'', ''hidden''), (''ENV_CSTORE_MODIFIED'', ''hidden'')] (addEnvVarPrefix k) = Some c \<longrightarrow> c = classification ''ENV'' (Data (exFile [])) k)
     \<and> ((None::error option) = None \<longrightarrow>
          (\<forall>k v. map_of (localKeysOf exEnvFoo exNow ''FOO=bar'') k = Some v \<longrightarrow>
              upserted evs \<lparr>p_Name = k, p_Value = v, p_Type = classification ''ENV'' (Data (exFile [])) k\<rparr>
                    (buildURL (Shipment exStore)) (Auth exStore)
            \<and> map_of [(''HARBOR_SHIPMENT'', ''app''), (''HARBOR_CONTAINER'', ''web''), (''HARBOR_ENV'', ''dev''),
      (''ENV_FOO'', ''hidden''), (''ENV_CSTORE_MODIFIED'', ''hidden'')] (addEnvVarPrefix k) = Some (classification ''ENV'' (Data (exFile [])) k))))"
proof -
  have d: "distinct (map fst (exEnvFoo ''FOO=bar''))"
    by (simp add: exEnvFoo_def)
  note th = Push_classifies [OF order_ok_inOrder d exPushFoo_run]
  show ?thesis
    using order_ok_inOrder d exPushFoo_result exPushFoo_remote th by (intro conjI)
qed



section \<open>Select\<close>

lemma goRange_mset:
  assumes "order_ok rng" "distinct (map fst m)"
  shows "mset (goRange rng m) = mset m"
proof -
  have "distinct (map fst (goRange rng m))" using assms by (rule goRange_distinct)
  then have "distinct (goRange rng m)" by (simp add: distinct_map)
  moreover have "distinct m" using assms(2) by (simp add: distinct_map)
  moreover have "set (goRange rng m) = set m" using assms by (rule goRange_set)
  ultimately show ?thesis by (simp add: set_eq_iff_mset_eq_distinct)
qed

lemma supportedLoop_spec:
  assumes "\<forall>st\<in>set ss. st_Name st \<noteq> []"
  shows "supportedLoop ftype ss acc =
     (let names = map st_Name (filter (\<lambda>st. SupportsFileType st ftype) ss)
      in if acc = [] then joinComma names
         else if names = [] then acc else acc @ '','' @ joinComma names)"
  using assms
proof (induction ss arbitrary: acc)
  case Nil
  show ?case by simp
next
  case (Cons st ss)
  then have ne: "st_Name st \<noteq> []" and rest: "\<forall>st\<in>set ss. st_Name st \<noteq> []" by simp_all
  note IH = Cons.IH [OF rest]
  show ?case
  proof (cases "SupportsFileType st ftype")
    case False
    then show ?thesis using IH [of acc] by (simp add: Let_def)
  next
    case True
    show ?thesis
    proof (cases "filter (\<lambda>st. SupportsFileType st ftype) ss")
      case Nil
      with True ne show ?thesis
        using IH [of "st_Name st"] IH [of "acc @ '','' @ st_Name st"] by (simp add: Let_def)
    next
      case (Cons a list)
      with True ne show ?thesis
        using IH [of "st_Name st"] IH [of "acc @ '','' @ st_Name st"] by (simp add: Let_def)
    qed
  qed
qed

text \<open>
  Claim C4. When \<^verbatim>\<open>file.Store\<close> is not empty: if it names a registered store, Select
  returns that store with the error of its Pre, the file and the world are those Pre
  leaves, and the only call Select makes is that one call of Pre, so the user is not
  prompted; if it names no registered store, Select returns \<^verbatim>\<open>ErrStoreNotFound\<close> and
  leaves the file, the world and the log of calls as they were (no Pre, no prompt, no
  call of any kind). In both cases the result does not depend on the prompt, on the
  iteration order or on the default store.
\<close>

theorem Select_bound:
  assumes "Store file \<noteq> []"
  shows "(\<forall>store. map_of stores (Store file) = Some store \<longrightarrow>
            fst (fst (Select stores rng ask DefaultStore ctx file W)) = Some store
          \<and> snd (fst (Select stores rng ask DefaultStore ctx file W)) = fst (st_Pre store ctx file (fst W))
          \<and> fst (snd (Select stores rng ask DefaultStore ctx file W)) = fst (snd (st_Pre store ctx file (fst W)))
          \<and> snd (snd (Select stores rng ask DefaultStore ctx file W))
              = (snd (snd (st_Pre store ctx file (fst W))), snd W @ [PreCalled (Store file)]))
       \<and> (map_of stores (Store file) = None \<longrightarrow>
            Select stores rng ask DefaultStore ctx file W = ((None, Some ErrStoreNotFound), file, W))
       \<and> Select stores rng ask DefaultStore ctx file W = Select stores rng' ask' DefaultStore' ctx file W"
  using assms by (auto simp: Select_def split: prod.splits)

text \<open>
  Claim C5, amended. When \<^verbatim>\<open>file.Store\<close> is empty (the registry having pairwise
  distinct keys and stores with non-empty names), Select prompts once, with the default
  store as the default value and a description that lists, separated by commas, the
  names of exactly the registered stores that support the type of the file (\<open>ss\<close> is a
  reordering of them). If the answer names a registered store, Select returns that store
  with the error of its Pre, called once after the prompt; the file it leaves is the
  file that Pre leaves: Select itself writes nothing into \<^verbatim>\<open>file.Store\<close>. If the answer
  names no registered store, Select returns \<^verbatim>\<open>ErrStoreNotFound\<close> and the file is as it
  was.
\<close>

theorem Select_unbound:
  assumes unbound: "Store file = []"
    and ord: "order_ok rng"
    and ds: "distinct (map fst stores)"
    and names: "\<forall>st\<in>snd ` set stores. st_Name st \<noteq> []"
  shows "\<exists>ss opts.
           mset ss = mset (filter (\<lambda>st. SupportsFileType st (Type file)) (map snd stores))
         \<and> opts = \<lparr>Description = ''The remote storage solution where '' @ Path file
                      @ '' data will be pushed. ('' @ joinComma (map st_Name ss) @ '')'',
                    DefaultValue = DefaultStore\<rparr>
         \<and> (\<forall>store. map_of stores (fst (ask ''Remote Store'' opts (fst W))) = Some store \<longrightarrow>
               fst (fst (Select stores rng ask DefaultStore ctx file W)) = Some store
             \<and> snd (fst (Select stores rng ask DefaultStore ctx file W))
                 = fst (st_Pre store ctx file (snd (ask ''Remote Store'' opts (fst W))))
             \<and> fst (snd (Select stores rng ask DefaultStore ctx file W))
                 = fst (snd (st_Pre store ctx file (snd (ask ''Remote Store'' opts (fst W)))))
             \<and> snd (snd (Select stores rng ask DefaultStore ctx file W))
                 = (snd (snd (st_Pre store ctx file (snd (ask ''Remote Store'' opts (fst W))))),
                    snd W @ [Prompted ''Remote Store'' opts,
                             PreCalled (fst (ask ''Remote Store'' opts (fst W)))]))
         \<and> (map_of stores (fst (ask ''Remote Store'' opts (fst W))) = None \<longrightarrow>
               Select stores rng ask DefaultStore ctx file W
                 = ((None, Some ErrStoreNotFound), file,
                    (snd (ask ''Remote Store'' opts (fst W)), snd W @ [Prompted ''Remote Store'' opts])))"
proof -
  let ?all = "map snd (goRange rng stores)"
  let ?ss = "filter (\<lambda>st. SupportsFileType st (Type file)) ?all"
  let ?opts = "\<lparr>Description = ''The remote storage solution where '' @ Path file
                      @ '' data will be pushed. ('' @ joinComma (map st_Name ?ss) @ '')'',
                    DefaultValue = DefaultStore\<rparr>"
  have m: "mset ?all = mset (map snd stores)"
    using goRange_mset [OF ord ds] by (metis mset_map)
  then have 1: "mset ?ss = mset (filter (\<lambda>st. SupportsFileType st (Type file)) (map snd stores))"
    by (metis mset_filter)
  have "set ?all = set (map snd stores)"
    using m by (rule mset_eq_setD)
  with names have "\<forall>st\<in>set ?all. st_Name st \<noteq> []" by simp
  then have sup: "supportedLoop (Type file) ?all [] = joinComma (map st_Name ?ss)"
    by (simp add: supportedLoop_spec Let_def)
  have 2: "(\<forall>store. map_of stores (fst (ask ''Remote Store'' ?opts (fst W))) = Some store \<longrightarrow>
               fst (fst (Select stores rng ask DefaultStore ctx file W)) = Some store
             \<and> snd (fst (Select stores rng ask DefaultStore ctx file W))
                 = fst (st_Pre store ctx file (snd (ask ''Remote Store'' ?opts (fst W))))
             \<and> fst (snd (Select stores rng ask DefaultStore ctx file W))
                 = fst (snd (st_Pre store ctx file (snd (ask ''Remote Store'' ?opts (fst W)))))
             \<and> snd (snd (Select stores rng ask DefaultStore ctx file W))
                 = (snd (snd (st_Pre store ctx file (snd (ask ''Remote Store'' ?opts (fst W))))),
                    snd W @ [Prompted ''Remote Store'' ?opts,
                             PreCalled (fst (ask ''Remote Store'' ?opts (fst W)))]))"
    using unbound by (auto simp: Select_def sup Let_def split: prod.splits)
  have 3: "(map_of stores (fst (ask ''Remote Store'' ?opts (fst W))) = None \<longrightarrow>
               Select stores rng ask DefaultStore ctx file W
                 = ((None, Some ErrStoreNotFound), file,
                    (snd (ask ''Remote Store'' ?opts (fst W)), snd W @ [Prompted ''Remote Store'' ?opts])))"
    using unbound by (auto simp: Select_def sup Let_def split: prod.splits)
  from 1 2 3 show ?thesis
    by (intro exI [of _ ?ss] exI [of _ ?opts] conjI refl)
qed

lemmas select_defs = exStores_def exHarbor_def exS3_def exAsk_def exNewFile_def exFile_def inOrder_def
  goRange_def List.map_filter_simps

lemma exSelectBound_eval:
  "fst exSelectBound = (Some exHarbor, None) \<and> fst (snd exSelectBound) = exFile []
   \<and> snd (snd exSelectBound) = (1, [PreCalled ''harbor''])"
  by (simp add: exSelectBound_def Select_def select_defs)

lemma exSelectUnknown_eval:
  "exSelectUnknown = ((None, Some ErrStoreNotFound), (exFile [])\<lparr>Store := ''unknown''\<rparr>, (0, []))"
  by (simp add: exSelectUnknown_def Select_def select_defs)

lemma exSelectNew_eval:
  "fst exSelectNew = (Some exHarbor, None) \<and> fst (snd exSelectNew) = exNewFile
   \<and> snd (snd exSelectNew)
       = (1, [Prompted ''Remote Store''
                \<lparr>Description = ''The remote storage solution where .env data will be pushed. (harbor,s3)'',
                 DefaultValue = ''s3''\<rparr>,
              PreCalled ''harbor''])"
  by (simp add: exSelectNew_def Select_def select_defs)

text \<open>
  The two scenarios of the claim: the file is bound to \<^verbatim>\<open>harbor\<close>, and Select returns
  that store after one call of Pre and no prompt; the file is bound to \<^verbatim>\<open>unknown\<close>, and
  Select returns \<^verbatim>\<open>ErrStoreNotFound\<close>, the world untouched and no call made.
\<close>

theorem Select_bound_witness:
  "Store (exFile []) \<noteq> []
   \<and> map_of exStores (Store (exFile [])) = Some exHarbor
   \<and> fst (fst exSelectBound) = Some exHarbor
   \<and> snd (fst exSelectBound) = fst (st_Pre exHarbor () (exFile []) 0)
   \<and> snd (snd exSelectBound) = (1, [PreCalled ''harbor''])
   \<and> Store ((exFile [])\<lparr>Store := ''unknown''\<rparr>) \<noteq> []
   \<and> map_of exStores (Store ((exFile [])\<lparr>Store := ''unknown''\<rparr>)) = None
   \<and> exSelectUnknown = ((None, Some ErrStoreNotFound), (exFile [])\<lparr>Store := ''unknown''\<rparr>, (0, []))"
proof -
  have b: "Store (exFile []) \<noteq> []" by (simp add: exFile_def)
  have l: "map_of exStores (Store (exFile [])) = Some exHarbor" by (simp add: exFile_def exStores_def)
  have u: "Store ((exFile [])\<lparr>Store := ''unknown''\<rparr>) \<noteq> []" by simp
  have n: "map_of exStores (Store ((exFile [])\<lparr>Store := ''unknown''\<rparr>)) = None" by (simp add: exStores_def)
  note th1 = Select_bound [where stores = exStores and rng = inOrder and ask = exAsk
      and DefaultStore = "''s3''" and ctx = "()" and W = "(0, [])" and rng' = inOrder and ask' = exAsk
      and DefaultStore' = "''s3''", OF b]
  note th2 = Select_bound [where stores = exStores
      and rng = inOrder and ask = exAsk and DefaultStore = "''s3''" and ctx = "()" and W = "(0, [])"
      and rng' = inOrder and ask' = exAsk and DefaultStore' = "''s3''", OF u]
  from th1 l have 1: "fst (fst exSelectBound) = Some exHarbor"
      "snd (fst exSelectBound) = fst (st_Pre exHarbor () (exFile []) 0)"
      "snd (snd exSelectBound) = (snd (snd (st_Pre exHarbor () (exFile []) 0)), [] @ [PreCalled (Store (exFile []))])"
    unfolding exSelectBound_def by simp_all
  from 1(3) have 2: "snd (snd exSelectBound) = (1, [PreCalled ''harbor''])"
    by (simp add: exHarbor_def exFile_def)
  from th2 n have 3: "exSelectUnknown = ((None, Some ErrStoreNotFound), (exFile [])\<lparr>Store := ''unknown''\<rparr>, (0, []))"
    unfolding exSelectUnknown_def by simp
  from b l 1(1,2) 2 u n 3 show ?thesis by (intro conjI)
qed

text \<open>
  The unbound file of the examples: the prompt lists \<^verbatim>\<open>harbor,s3\<close>, the user answers
  \<^verbatim>\<open>harbor\<close>, Select returns that store after one call of its Pre, and the file is as it
  was.
\<close>

theorem Select_unbound_witness:
  "Store exNewFile = []
   \<and> order_ok inOrder
   \<and> distinct (map fst exStores)
   \<and> fst exSelectNew = (Some exHarbor, None)
   \<and> fst (snd exSelectNew) = exNewFile
   \<and> snd (snd exSelectNew)
       = (1, [Prompted ''Remote Store''
                \<lparr>Description = ''The remote storage solution where .env data will be pushed. (harbor,s3)'',
                 DefaultValue = ''s3''\<rparr>,
              PreCalled ''harbor''])
   \<and> (\<exists>ss opts.
           mset ss = mset (filter (\<lambda>st. SupportsFileType st (Type exNewFile)) (map snd exStores))
         \<and> opts = \<lparr>Description = ''The remote storage solution where '' @ Path exNewFile
                      @ '' data will be pushed. ('' @ joinComma (map st_Name ss) @ '')'',
                    DefaultValue = ''s3''\<rparr>
         \<and> (\<forall>store. map_of exStores (fst (exAsk ''Remote Store'' opts (fst (0::nat, []::call list)))) = Some store \<longrightarrow>
               fst (fst (Select exStores inOrder exAsk ''s3'' () exNewFile (0::nat, []::call list))) = Some store
             \<and> snd (fst (Select exStores inOrder exAsk ''s3'' () exNewFile (0::nat, []::call list)))
                 = fst (st_Pre store () exNewFile (snd (exAsk ''Remote Store'' opts (fst (0::nat, []::call list)))))
             \<and> fst (snd (Select exStores inOrder exAsk ''s3'' () exNewFile (0::nat, []::call list)))
                 = fst (snd (st_Pre store () exNewFile (snd (exAsk ''Remote Store'' opts (fst (0::nat, []::call list))))))
             \<and> snd (snd (Select exStores inOrder exAsk ''s3'' () exNewFile (0::nat, []::call list)))
                 = (snd (snd (st_Pre store () exNewFile (snd (exAsk ''Remote Store'' opts (fst (0::nat, []::call list)))))),
                    snd (0::nat, []::call list) @ [Prompted ''Remote Store'' opts,
                             PreCalled (fst (exAsk ''Remote Store'' opts (fst (0::nat, []::call list))))]))
         \<and> (map_of exStores (fst (exAsk ''Remote Store'' opts (fst (0::nat, []::call list)))) = None \<longrightarrow>
               Select exStores inOrder exAsk ''s3'' () exNewFile (0::nat, []::call list)
                 = ((None, Some ErrStoreNotFound), exNewFile,
                    (snd (exAsk ''Remote Store'' opts (fst (0::nat, []::call list))), snd (0::nat, []::call list) @ [Prompted ''Remote Store'' opts]))))"
proof -
  have u: "Store exNewFile = []" by (simp add: exNewFile_def)
  have d: "distinct (map fst exStores)" by (simp add: exStores_def)
  have n: "\<forall>st\<in>snd ` set exStores. st_Name st \<noteq> []"
    by (simp add: exStores_def exHarbor_def exS3_def)
  note th = Select_unbound [where rng = inOrder and stores = exStores and ask = exAsk
      and W = "(0, [])" and DefaultStore = "''s3''" and ctx = "()", OF u order_ok_inOrder d n]
  show ?thesis
    using u order_ok_inOrder d exSelectNew_eval [THEN conjunct1] exSelectNew_eval [THEN conjunct2, THEN conjunct1]
      exSelectNew_eval [THEN conjunct2, THEN conjunct2] th
    by (intro conjI)
qed

text \<open>
  Against claim C5 as it is written: the file is unbound, the user chooses the registered
  store \<^verbatim>\<open>harbor\<close>, Select returns it, and \<^verbatim>\<open>file.Store\<close> is still empty.
\<close>

theorem Select_does_not_bind:
  "Store exNewFile = []
   \<and> map_option st_Name (fst (fst exSelectNew)) = Some ''harbor''
   \<and> snd (fst exSelectNew) = None
   \<and> Store (fst (snd exSelectNew)) = []
   \<and> Store (fst (snd exSelectNew)) \<noteq> ''harbor''"
  using exSelectNew_eval by (simp add: exNewFile_def exHarbor_def)

section \<open>Purge\<close>

lemma purgeLoop_shift:
  "purgeLoop T url auth kvs (w0, log0) =
     (case purgeLoop T url auth kvs (w0, []) of (e, (w', evs)) \<Rightarrow> (e, (w', log0 @ evs)))"
proof (induction kvs arbitrary: w0 log0)
  case Nil
  show ?case by simp
next
  case (Cons kv rest)
  obtain k v where kv: "kv = (k, v)" by (cases kv)
  let ?a = "T (deleteReq k url auth) w0"
  let ?ev = "Http (deleteReq k url auth) (fst ?a)"
  note IH = Cons.IH [of _ "log0 @ [?ev]"] Cons.IH [of _ "[?ev]"] Cons.IH [of _ log0]
  show ?case
    unfolding kv by (simp add: deleteKey_eq IH split: option.splits prod.splits)
qed

lemma purgeLoop_requests:
  assumes "purgeLoop T url auth kvs (w0, []) = (e, (w', evs))"
  shows "\<exists>n. requests evs
            = map (\<lambda>kv. deleteReq (fst kv) url auth) (take n (filter (\<lambda>kv. isEnvVarType (snd kv)) kvs))
          \<and> (e = None \<longrightarrow> n = length (filter (\<lambda>kv. isEnvVarType (snd kv)) kvs))"
  using assms
proof (induction kvs arbitrary: w0 e w' evs)
  case Nil
  then show ?case by simp
next
  case (Cons kv rest)
  obtain k v where kv: "kv = (k, v)" by (cases kv)
  let ?a = "T (deleteReq k url auth) w0"
  let ?ev = "Http (deleteReq k url auth) (fst ?a)"
  note sh = purgeLoop_shift [of T url auth rest _ "[?ev]"]
  show ?case
  proof (cases "isEnvVarType v")
    case False
    with Cons.prems kv have "purgeLoop T url auth rest (w0, []) = (e, (w', evs))" by simp
    from Cons.IH [OF this] False kv show ?thesis by simp
  next
    case True
    show ?thesis
    proof (cases "statusError 200 (fst ?a)")
      case (Some err)
      with Cons.prems kv True have "evs = [?ev]" "e = Some err"
        by (simp_all add: deleteKey_eq)
      with True kv show ?thesis by (intro exI [of _ 1]) simp
    next
      case None
      obtain e0 w0' evs0 where r: "purgeLoop T url auth rest (snd ?a, []) = (e0, (w0', evs0))"
        by (metis prod.collapse)
      with Cons.prems kv True None have eq: "e = e0" "evs = ?ev # evs0"
        by (simp_all add: deleteKey_eq sh)
      from Cons.IH [OF r] obtain n where
        "requests evs0
            = map (\<lambda>kv. deleteReq (fst kv) url auth) (take n (filter (\<lambda>kv. isEnvVarType (snd kv)) rest))"
        "e0 = None \<longrightarrow> n = length (filter (\<lambda>kv. isEnvVarType (snd kv)) rest)"
        by blast
      with eq True kv show ?thesis by (intro exI [of _ "Suc n"]) simp
    qed
  qed
qed

text \<open>
  What Purge sends, for every iteration order: DELETE requests for entries of
  \<^verbatim>\<open>file.Data\<close> with a recognised value, each under the key of the entry as it is
  written in \<^verbatim>\<open>file.Data\<close>, one after the other until one fails.
\<close>

lemma Purge_requests:
  assumes ord: "order_ok rng"
    and dd: "distinct (map fst (Data file))"
    and run: "Purge T rng s contextKey file w = (e, w')"
  shows "\<exists>evs es n. snd w' = snd w @ evs
     \<and> distinct (map fst es)
     \<and> set es = {kv \<in> set (Data file). isEnvVarType (snd kv)}
     \<and> requests evs = map (\<lambda>kv. deleteReq (fst kv) (buildURL (Shipment s)) (Auth s)) (take n es)
     \<and> (e = None \<longrightarrow> n = length es)"
proof -
  let ?kvs = "goRange rng (Data file)"
  let ?es = "filter (\<lambda>kv. isEnvVarType (snd kv)) ?kvs"
  obtain e0 w0 evs where l: "purgeLoop T (buildURL (Shipment s)) (Auth s) ?kvs (fst w, []) = (e0, (w0, evs))"
    by (metis prod.collapse)
  from run l purgeLoop_shift [of T "buildURL (Shipment s)" "Auth s" ?kvs "fst w" "snd w"]
  have eq: "e = e0" "w' = (w0, snd w @ evs)"
    by (simp_all add: Purge_def)
  from purgeLoop_requests [OF l] obtain n where
    n: "requests evs = map (\<lambda>kv. deleteReq (fst kv) (buildURL (Shipment s)) (Auth s)) (take n ?es)"
      "e0 = None \<longrightarrow> n = length ?es"
    by blast
  have "distinct (map fst ?kvs)" using ord dd by (rule goRange_distinct)
  then have 1: "distinct (map fst ?es)" by (rule distinct_map_filter)
  have 2: "set ?es = {kv \<in> set (Data file). isEnvVarType (snd kv)}"
    using goRange_set [OF ord dd] by auto
  from eq n 1 2 show ?thesis
    by (intro exI [of _ evs] exI [of _ ?es] exI [of _ n]) simp
qed

text \<open>
  Claim C6, at the input where it fails. The catalog entry records the remote key
  \<^verbatim>\<open>FOO\<close> the way Push records it, as \<^verbatim>\<open>ENV_FOO\<close> with a recognised classification, and
  the remote store holds \<^verbatim>\<open>FOO\<close>. Purge sends one request, the DELETE of the key
  \<^verbatim>\<open>ENV_FOO\<close>: the name of the entry in \<^verbatim>\<open>file.Data\<close>, prefix included, not the name of
  the remote key. The server has no such key and answers 404, Purge returns that error,
  and \<^verbatim>\<open>FOO\<close> is still in the remote store.
\<close>

theorem Purge_deletes_the_prefixed_name:
  "fst exPurge = Some (Err ''404 Not Found'')
   \<and> fst (snd exPurge) = [(''FOO'', exKey ''bar'')]
   \<and> requests (snd (snd exPurge)) = [deleteReq ''ENV_FOO'' (buildURL exShipment) (Auth exStore)]
   \<and> map URL (requests (snd (snd exPurge)))
       = [''http://shipit.services.dmtio.net/v1/shipment/app/environment/dev/container/web/envVar/ENV_FOO'']"
  by (simp add: exPurge_def Purge_def isEnvVarType_def deleteKey_eq goRange_def List.map_filter_simps
      statusError_def ex_defs const_defs req_defs server_defs)


section \<open>Pre\<close>

text \<open>
  Whenever the vault has no cached user and \<^verbatim>\<open>client.Login\<close> answers without an error
  and without success, Pre returns a nil error.
\<close>

lemma Pre_login_without_success:
  assumes "NewAuthClient C authURL = None"
    and "vault_Get C cv contextID userToken = Inl e"
    and "Login C (GetValFromUser C userToken False) (GetValFromUser C passToken True) = (token, False, None)"
  shows "fst (Pre C s contextID file cv) = None"
  using assms by (simp add: Pre_def Let_def split: sum.splits)

text \<open>
  Claim C7, at the input where it fails. The vault holds no user and no token, the
  user is asked for the credentials, and \<^verbatim>\<open>client.Login\<close> answers without an error and
  with \<^verbatim>\<open>success = false\<close>. Pre executes \<^verbatim>\<open>return err\<close> with a nil \<^verbatim>\<open>err\<close>: it returns
  no error, and leaves the store without a token and without coordinates.
\<close>

theorem Pre_returns_nil_on_unsuccessful_login:
  "NewAuthClient exCollaborators authURL = None
   \<and> vault_Get exCollaborators () ''ctx'' userToken = Inl (Err ''not found'')
   \<and> vault_Get exCollaborators () ''ctx'' tokenToken = Inl (Err ''not found'')
   \<and> Login exCollaborators (GetValFromUser exCollaborators userToken False)
        (GetValFromUser exCollaborators passToken True) = ([], False, None)
   \<and> fst exPre = None
   \<and> Token (Auth (fst (snd exPre))) = []
   \<and> Shipment (fst (snd exPre)) = \<lparr>ship_Name = [], ship_Container = [], ship_Env = []\<rparr>"
  by (simp add: exPre_def Pre_def exCollaborators_def preCoordinates_def ex_defs authURL_def userToken_def
      tokenToken_def passToken_def const_defs Let_def)


end
